theory Spec2Isabelle
  imports Main
begin

section \<open>Shortest-path forwarding: data model\<close>

text \<open>
  A shallow embedding of \<^verbatim>\<open>ryu/app/network_awareness/shortest_forwarding.py\<close>
  (class \<^verbatim>\<open>ShortestForwarding\<close>). Switch identifiers, port numbers and the ethertype are
  Python integers; addresses are strings.
\<close>

type_synonym dpid = int
type_synonym port_no = int
type_synonym ip_addr = string
type_synonym mac_addr = string
type_synonym path = "dpid list"

text \<open>The exceptions the modelled code can raise.\<close>

datatype py_error = KeyError | AttributeError | TypeError | IndexError | AssertionError

text \<open>
  \<^verbatim>\<open>datapath.ofproto\<close> is the protocol module of the switch (\<^verbatim>\<open>ofproto_v1_3\<close>), which is
  not part of the modelled file: the constants read from it are fields of a parameter.
\<close>

record ofproto_consts =
  OFPP_LOCAL :: int
  OFPP_CONTROLLER :: int
  OFP_NO_BUFFER :: int
  OFPIT_APPLY_ACTIONS :: int

text \<open>A datapath is the control handle of one connected switch.\<close>

record datapath =
  dp_id :: dpid
  ofproto :: ofproto_consts

datatype action = OFPActionOutput port_no

datatype ofp_match = OFPMatch port_no int ip_addr ip_addr
  \<comment> \<open>\<^verbatim>\<open>in_port\<close>, \<^verbatim>\<open>eth_type\<close>, \<^verbatim>\<open>ipv4_src\<close>, \<^verbatim>\<open>ipv4_dst\<close>\<close>

datatype instruction = OFPInstructionActions int "action list"

datatype ofp_msg =
    OFPFlowMod int int int ofp_match "instruction list"
      \<comment> \<open>\<^verbatim>\<open>priority\<close>, \<^verbatim>\<open>idle_timeout\<close>, \<^verbatim>\<open>hard_timeout\<close>, \<^verbatim>\<open>match\<close>, \<^verbatim>\<open>instructions\<close>\<close>
  | OFPPacketOut int "string option" port_no "action list"
      \<comment> \<open>\<^verbatim>\<open>buffer_id\<close>, \<^verbatim>\<open>data\<close>, \<^verbatim>\<open>in_port\<close>, \<^verbatim>\<open>actions\<close>\<close>

text \<open>
  What a handler does to the outside world, in order: messages written to a switch's
  control channel and log records (the format string with its arguments).
\<close>

datatype log_arg = AInt int | AStr string | APath path

datatype event =
    Send datapath ofp_msg
  | Info string "log_arg list"
  | Debug string "log_arg list"

type_synonym trace = "event list"

text \<open>
  The state of the topology module read by the application. The dictionaries that the code
  iterates over (\<^verbatim>\<open>access_ports\<close>, \<^verbatim>\<open>access_table\<close>) are association lists in iteration
  order, with distinct keys as in a dictionary; the others are maps.
  \<^verbatim>\<open>shortest_paths\<close> gives for a source and a destination switch the ranked alternative
  paths, of which \<^verbatim>\<open>get_path\<close> takes the first.
  \<^verbatim>\<open>get_host_location\<close> is a method of the topology module, which is not part of the
  modelled file: it is a field here, so what is proved holds for any such function.
\<close>

record NetworkAwareness =
  access_ports :: "(dpid \<times> port_no list) list"
  access_table :: "((dpid \<times> port_no) \<times> (ip_addr \<times> mac_addr)) list"
  link_to_port :: "(dpid \<times> dpid) \<rightharpoonup> (port_no \<times> port_no)"
  shortest_paths :: "dpid \<rightharpoonup> (dpid \<rightharpoonup> path list)"
  get_host_location :: "ip_addr \<Rightarrow> (dpid \<times> port_no) option"

record ShortestForwarding =
  awareness :: NetworkAwareness
  datapaths :: "dpid \<rightharpoonup> datapath"

text \<open>A packet-in message: \<^verbatim>\<open>msg.datapath\<close>, \<^verbatim>\<open>msg.buffer_id\<close>, \<^verbatim>\<open>msg.match['in_port']\<close>, \<^verbatim>\<open>msg.data\<close>.\<close>

record packet_in =
  msg_datapath :: datapath
  msg_buffer_id :: int
  msg_in_port :: port_no
  msg_data :: "string option"

section \<open>Rule and packet-out emission\<close>

text \<open>
  Modelled from the spec: \<^verbatim>\<open>Datapath.send_msg\<close> belongs to the controller framework and is
  not in the modelled file; the spec (4.7) gives one control-channel write per call, with no
  acknowledgment awaited.
\<close>

definition send_msg :: "datapath \<Rightarrow> ofp_msg \<Rightarrow> trace \<Rightarrow> trace" where
  "send_msg dp m st = st @ [Send dp m]"

definition add_flow ::
  "datapath \<Rightarrow> int \<Rightarrow> ofp_match \<Rightarrow> action list \<Rightarrow> int \<Rightarrow> int \<Rightarrow> trace \<Rightarrow> trace" where
  "add_flow dp p match actions idle_timeout hard_timeout st =
     (let inst = [OFPInstructionActions (OFPIT_APPLY_ACTIONS (ofproto dp)) actions];
          flow_mod = OFPFlowMod p idle_timeout hard_timeout match inst
      in send_msg dp flow_mod st)"

text \<open>
  \<^verbatim>\<open>send_flow_mod\<close> reads only the first three components of \<^verbatim>\<open>flow_info\<close>
  (ethertype, source, destination), so it takes that triple.
\<close>

definition send_flow_mod ::
  "datapath \<Rightarrow> int \<times> ip_addr \<times> ip_addr \<Rightarrow> port_no \<Rightarrow> port_no \<Rightarrow> trace \<Rightarrow> trace" where
  "send_flow_mod datapath flow_info src_port dst_port st =
     (case flow_info of (eth_type, ipv4_src, ipv4_dst) \<Rightarrow>
        let actions = [OFPActionOutput dst_port];
            match = OFPMatch src_port eth_type ipv4_src ipv4_dst
        in add_flow datapath 1 match actions 15 60 st)"

text \<open>\<^verbatim>\<open>_build_packet_out\<close>: \<^verbatim>\<open>if dst_port\<close> is false for port 0.\<close>

definition build_packet_out ::
  "datapath \<Rightarrow> int \<Rightarrow> port_no \<Rightarrow> port_no \<Rightarrow> string option \<Rightarrow> ofp_msg option" where
  "build_packet_out datapath buffer_id src_port dst_port data =
     (let actions = (if dst_port \<noteq> 0 then [OFPActionOutput dst_port] else [])
      in if buffer_id = OFP_NO_BUFFER (ofproto datapath)
         then (case data of
                 None \<Rightarrow> None
               | Some d \<Rightarrow> Some (OFPPacketOut buffer_id (Some d) src_port actions))
         else Some (OFPPacketOut buffer_id None src_port actions))"

definition send_packet_out ::
  "datapath \<Rightarrow> int \<Rightarrow> port_no \<Rightarrow> port_no \<Rightarrow> string option \<Rightarrow> trace \<Rightarrow> trace" where
  "send_packet_out datapath buffer_id src_port dst_port data st =
     (case build_packet_out datapath buffer_id src_port dst_port data of
        None \<Rightarrow> st
      | Some out \<Rightarrow> send_msg datapath out st)"

section \<open>Lookups\<close>

text \<open>
  \<^verbatim>\<open>get_port\<close> walks the keys of \<^verbatim>\<open>access_table\<close> and returns the port of the first key
  whose value carries the address. The values are pairs, so the \<^verbatim>\<open>isinstance\<close> test holds.
\<close>

fun get_port ::
  "ip_addr \<Rightarrow> ((dpid \<times> port_no) \<times> (ip_addr \<times> mac_addr)) list \<Rightarrow> port_no option" where
  "get_port dst_ip [] = None"
| "get_port dst_ip ((key, v) # rest) =
     (if dst_ip = fst v then Some (snd key) else get_port dst_ip rest)"

definition get_port_pair_from_link ::
  "((dpid \<times> dpid) \<rightharpoonup> (port_no \<times> port_no)) \<Rightarrow> dpid \<Rightarrow> dpid \<Rightarrow> trace
     \<Rightarrow> (port_no \<times> port_no) option \<times> trace" where
  "get_port_pair_from_link l2p src_dpid dst_dpid st =
     (case l2p (src_dpid, dst_dpid) of
        Some pp \<Rightarrow> (Some pp, st)
      | None \<Rightarrow>
          (None, st @ [Info ''dpid:%s->dpid:%s is not in links'' [AInt src_dpid, AInt dst_dpid]]))"

text \<open>
  \<^verbatim>\<open>shortest_paths.get(src).get(dst)[0]\<close>: \<^verbatim>\<open>dict.get\<close> returns \<^verbatim>\<open>None\<close> for an absent key;
  calling \<^verbatim>\<open>.get\<close> on \<^verbatim>\<open>None\<close> raises AttributeError, indexing \<^verbatim>\<open>None\<close> raises TypeError,
  and indexing an empty list raises IndexError.
\<close>

definition get_path :: "ShortestForwarding \<Rightarrow> dpid \<Rightarrow> dpid \<Rightarrow> py_error + path" where
  "get_path self src dst =
     (case shortest_paths (awareness self) src of
        None \<Rightarrow> Inl AttributeError
      | Some row \<Rightarrow>
          (case row dst of
             None \<Rightarrow> Inl TypeError
           | Some [] \<Rightarrow> Inl IndexError
           | Some (p # _) \<Rightarrow> Inr p))"

text \<open>
  \<^verbatim>\<open>get_sw\<close>: \<^verbatim>\<open>access_ports[dpid]\<close> raises KeyError for an unknown switch. The result
  \<^verbatim>\<open>None\<close> is \<open>Inr None\<close>; a pair \<^verbatim>\<open>(src_sw, dst_sw)\<close> has \<^verbatim>\<open>dst_sw\<close> optional.
\<close>

definition get_sw ::
  "ShortestForwarding \<Rightarrow> dpid \<Rightarrow> port_no \<Rightarrow> ip_addr \<Rightarrow> ip_addr
     \<Rightarrow> py_error + (dpid \<times> dpid option) option" where
  "get_sw self dpid in_port src dst =
     (let src_location = get_host_location (awareness self) src
      in case map_of (access_ports (awareness self)) dpid of
           None \<Rightarrow> Inl KeyError
         | Some ports \<Rightarrow>
             (case (if in_port \<in> set ports
                    then (case src_location of
                            Some loc \<Rightarrow> if (dpid, in_port) = loc then Some (fst loc) else None
                          | None \<Rightarrow> None)
                    else Some dpid) of
                None \<Rightarrow> Inr None
              | Some src_sw \<Rightarrow>
                  (let dst_location = get_host_location (awareness self) dst;
                       dst_sw = (case dst_location of
                                   Some loc \<Rightarrow> Some (fst loc)
                                 | None \<Rightarrow> None)
                   in Inr (Some (src_sw, dst_sw)))))"

section \<open>Address-resolution traffic\<close>

text \<open>
  \<^verbatim>\<open>flood\<close>: the inner loop over the ports of one switch, then the outer loop over the
  switches. \<^verbatim>\<open>self.datapaths[dpid]\<close> raises KeyError for an unregistered switch. The
  constants come from the datapath of the packet-in message; the message is built for and
  sent to the registered handle. When \<^verbatim>\<open>_build_packet_out\<close> returns \<^verbatim>\<open>None\<close>, the framework's
  \<^verbatim>\<open>send_msg\<close> is handed \<^verbatim>\<open>None\<close> and fails its assertion that the argument is a message.
\<close>

fun flood_ports ::
  "ShortestForwarding \<Rightarrow> packet_in \<Rightarrow> dpid \<Rightarrow> port_no list \<Rightarrow> trace
     \<Rightarrow> (py_error + unit) \<times> trace" where
  "flood_ports self msg dpid [] st = (Inr (), st)"
| "flood_ports self msg dpid (port # ports) st =
     (if map_of (access_table (awareness self)) (dpid, port) = None
      then (case datapaths self dpid of
              None \<Rightarrow> (Inl KeyError, st)
            | Some datapath \<Rightarrow>
                (case build_packet_out datapath
                        (OFP_NO_BUFFER (ofproto (msg_datapath msg)))
                        (OFPP_CONTROLLER (ofproto (msg_datapath msg))) port (msg_data msg) of
                   None \<Rightarrow> (Inl AssertionError, st)
                 | Some out \<Rightarrow> flood_ports self msg dpid ports (send_msg datapath out st)))
      else flood_ports self msg dpid ports st)"

fun flood_switches ::
  "ShortestForwarding \<Rightarrow> packet_in \<Rightarrow> (dpid \<times> port_no list) list \<Rightarrow> trace
     \<Rightarrow> (py_error + unit) \<times> trace" where
  "flood_switches self msg [] st = (Inr (), st)"
| "flood_switches self msg ((dpid, ports) # rest) st =
     (case flood_ports self msg dpid ports st of
        (Inl e, st') \<Rightarrow> (Inl e, st')
      | (Inr _, st') \<Rightarrow> flood_switches self msg rest st')"

definition flood :: "ShortestForwarding \<Rightarrow> packet_in \<Rightarrow> trace \<Rightarrow> (py_error + unit) \<times> trace" where
  "flood self msg st =
     (case flood_switches self msg (access_ports (awareness self)) st of
        (Inl e, st') \<Rightarrow> (Inl e, st')
      | (Inr _, st') \<Rightarrow> (Inr (), st' @ [Debug ''Flooding msg'' []]))"

definition arp_forwarding ::
  "ShortestForwarding \<Rightarrow> packet_in \<Rightarrow> ip_addr \<Rightarrow> ip_addr \<Rightarrow> trace
     \<Rightarrow> (py_error + unit) \<times> trace" where
  "arp_forwarding self msg src_ip dst_ip st =
     (case get_host_location (awareness self) dst_ip of
        Some result \<Rightarrow>
          (let datapath_dst = fst result; out_port = snd result
           in case datapaths self datapath_dst of
                None \<Rightarrow> (Inl KeyError, st)
              | Some datapath \<Rightarrow>
                  (case build_packet_out datapath
                          (OFP_NO_BUFFER (ofproto (msg_datapath msg)))
                          (OFPP_CONTROLLER (ofproto (msg_datapath msg))) out_port (msg_data msg) of
                     None \<Rightarrow> (Inl AssertionError, st)
                   | Some out \<Rightarrow>
                       (Inr (), send_msg datapath out st @ [Debug ''Reply ARP to knew host'' []])))
      | None \<Rightarrow> flood self msg st)"

section \<open>Flow installation\<close>

text \<open>
  The loop \<^verbatim>\<open>for i in range(1, len(path)-1)\<close> of \<^verbatim>\<open>install_flow\<close>, over the list of its
  indices. A switch whose incoming or outgoing link is not in \<^verbatim>\<open>link_to_port\<close> is passed
  over and the loop goes on. \<^verbatim>\<open>datapaths[path[i]]\<close> raises KeyError.
\<close>

fun inter_link ::
  "(dpid \<rightharpoonup> datapath) \<Rightarrow> ((dpid \<times> dpid) \<rightharpoonup> (port_no \<times> port_no)) \<Rightarrow> path
     \<Rightarrow> int \<times> ip_addr \<times> ip_addr \<Rightarrow> int \<times> ip_addr \<times> ip_addr \<Rightarrow> nat list \<Rightarrow> trace
     \<Rightarrow> (py_error + unit) \<times> trace" where
  "inter_link dps l2p path flow_info back_info [] st = (Inr (), st)"
| "inter_link dps l2p path flow_info back_info (i # rest) st =
     (case get_port_pair_from_link l2p (path ! (i - 1)) (path ! i) st of (port, st1) \<Rightarrow>
      case get_port_pair_from_link l2p (path ! i) (path ! (i + 1)) st1 of (port_next, st2) \<Rightarrow>
        (case (port, port_next) of
           (Some p, Some pn) \<Rightarrow>
             (let src_port = snd p; dst_port = fst pn
              in case dps (path ! i) of
                   None \<Rightarrow> (Inl KeyError, st2)
                 | Some datapath \<Rightarrow>
                     inter_link dps l2p path flow_info back_info rest
                       (send_flow_mod datapath back_info dst_port src_port
                          (send_flow_mod datapath flow_info src_port dst_port st2)
                        @ [Debug ''inter_link flow install'' []]))
         | _ \<Rightarrow> inter_link dps l2p path flow_info back_info rest st2))"

text \<open>
  \<^verbatim>\<open>install_flow\<close>. \<^verbatim>\<open>path[-2]\<close> and \<^verbatim>\<open>path[-1]\<close> are read only when the path has at
  least two switches. The initial \<^verbatim>\<open>out_port = first_dp.ofproto.OFPP_LOCAL\<close> is overwritten
  before it is used on every branch.
\<close>

definition install_flow ::
  "(dpid \<rightharpoonup> datapath) \<Rightarrow> ((dpid \<times> dpid) \<rightharpoonup> (port_no \<times> port_no))
     \<Rightarrow> ((dpid \<times> port_no) \<times> (ip_addr \<times> mac_addr)) list \<Rightarrow> path option
     \<Rightarrow> int \<times> ip_addr \<times> ip_addr \<times> port_no \<Rightarrow> int \<Rightarrow> string option \<Rightarrow> trace
     \<Rightarrow> (py_error + unit) \<times> trace" where
  "install_flow dps l2p acc_table path_opt flow_info4 buffer_id data st =
     (case path_opt of
        None \<Rightarrow> (Inr (), st @ [Info ''Path error!'' []])
      | Some path \<Rightarrow>
          if length path = 0 then (Inr (), st @ [Info ''Path error!'' []])
          else
            (case flow_info4 of (eth_type, ip_src, ip_dst, in_port) \<Rightarrow>
             case dps (path ! 0) of
               None \<Rightarrow> (Inl KeyError, st)
             | Some first_dp \<Rightarrow>
                 (let flow_info = (eth_type, ip_src, ip_dst);
                      back_info = (eth_type, ip_dst, ip_src)
                  in case (if length path > 2
                           then inter_link dps l2p path flow_info back_info
                                  [1 ..< length path - 1] st
                           else (Inr (), st)) of
                       (Inl e, st1) \<Rightarrow> (Inl e, st1)
                     | (Inr _, st1) \<Rightarrow>
                         if length path > 1 then
                           (case get_port_pair_from_link l2p
                                   (path ! (length path - 2)) (path ! (length path - 1)) st1 of
                              (None, st2) \<Rightarrow> (Inr (), st2 @ [Info ''Port is not found'' []])
                            | (Some port_pair, st2) \<Rightarrow>
                                (let src_port = snd port_pair
                                 in case get_port ip_dst acc_table of
                                      None \<Rightarrow> (Inr (), st2 @ [Info ''Last port is not found.'' []])
                                    | Some dst_port \<Rightarrow>
                                        (case dps (path ! (length path - 1)) of
                                           None \<Rightarrow> (Inl KeyError, st2)
                                         | Some last_dp \<Rightarrow>
                                             (let st3 = send_flow_mod last_dp back_info dst_port src_port
                                                          (send_flow_mod last_dp flow_info src_port dst_port st2)
                                              in case get_port_pair_from_link l2p (path ! 0) (path ! 1) st3 of
                                                   (None, st4) \<Rightarrow>
                                                     (Inr (), st4 @ [Info ''Port not found in first hop.'' []])
                                                 | (Some port_pair1, st4) \<Rightarrow>
                                                     (let out_port = fst port_pair1
                                                      in (Inr (),
                                                          send_packet_out first_dp buffer_id in_port out_port data
                                                            (send_flow_mod first_dp back_info out_port in_port
                                                               (send_flow_mod first_dp flow_info in_port out_port
                                                                  st4))))))))
                         else
                           (case get_port ip_dst acc_table of
                              None \<Rightarrow> (Inr (), st1 @ [Info ''Out_port is None in same dp'' []])
                            | Some out_port \<Rightarrow>
                                (Inr (),
                                 send_packet_out first_dp buffer_id in_port out_port data
                                   (send_flow_mod first_dp back_info out_port in_port
                                      (send_flow_mod first_dp flow_info in_port out_port st1)))))))"

text \<open>
  \<^verbatim>\<open>shortest_forwarding\<close>. \<^verbatim>\<open>if dst_sw\<close> is false for \<^verbatim>\<open>None\<close> and for the switch
  identifier 0. No exception is caught here.
\<close>

definition shortest_forwarding ::
  "ShortestForwarding \<Rightarrow> packet_in \<Rightarrow> int \<Rightarrow> ip_addr \<Rightarrow> ip_addr \<Rightarrow> trace
     \<Rightarrow> (py_error + unit) \<times> trace" where
  "shortest_forwarding self msg eth_type ip_src ip_dst st =
     (let datapath = msg_datapath msg; in_port = msg_in_port msg
      in case get_sw self (dp_id datapath) in_port ip_src ip_dst of
           Inl e \<Rightarrow> (Inl e, st)
         | Inr None \<Rightarrow> (Inr (), st)
         | Inr (Some (src_sw, dst_sw_opt)) \<Rightarrow>
             (case dst_sw_opt of
                None \<Rightarrow> (Inr (), st)
              | Some dst_sw \<Rightarrow>
                  if dst_sw \<noteq> 0 then
                    (case get_path self src_sw dst_sw of
                       Inl e \<Rightarrow> (Inl e, st)
                     | Inr path \<Rightarrow>
                         install_flow (datapaths self) (link_to_port (awareness self))
                           (access_table (awareness self)) (Some path)
                           (eth_type, ip_src, ip_dst, in_port) (msg_buffer_id msg) (msg_data msg)
                           (st @ [Info ''[PATH]%s<-->%s: %s''
                                    [AStr ip_src, AStr ip_dst, APath path]]))
                  else (Inr (), st)))"

section \<open>Vocabulary of the properties\<close>

text \<open>
  Modelled from the spec: \<^verbatim>\<open>NetworkAwareness.get_host_location\<close> is not in the modelled
  file; the spec (4.3, 6) has it query the Host Location Table for an address and return the
  AccessPoint of the entry, or nothing. It instantiates the \<^verbatim>\<open>get_host_location\<close> field in
  concrete examples; the general statements hold for any such function.
\<close>

fun host_location ::
  "((dpid \<times> port_no) \<times> (ip_addr \<times> mac_addr)) list \<Rightarrow> ip_addr \<Rightarrow> (dpid \<times> port_no) option" where
  "host_location [] host_ip = None"
| "host_location ((key, v) # rest) host_ip =
     (if fst v = host_ip then Some key else host_location rest host_ip)"

text \<open>
  The event that \<^verbatim>\<open>send_flow_mod\<close> appends: a rule of priority 1, idle timeout 15 and hard
  timeout 60 that matches ingress port \<open>p\<close>, the ethertype, source and destination of the flow
  and outputs to port \<open>q\<close>.
\<close>

definition flow_rule ::
  "datapath \<Rightarrow> int \<times> ip_addr \<times> ip_addr \<Rightarrow> port_no \<Rightarrow> port_no \<Rightarrow> event" where
  "flow_rule dp flow_info p q =
     Send dp (OFPFlowMod 1 15 60
                (OFPMatch p (fst flow_info) (fst (snd flow_info)) (snd (snd flow_info)))
                [OFPInstructionActions (OFPIT_APPLY_ACTIONS (ofproto dp)) [OFPActionOutput q]])"

fun is_flow_mod :: "event \<Rightarrow> bool" where
  "is_flow_mod (Send dp (OFPFlowMod pr idle hard m inst)) = True"
| "is_flow_mod e = False"

fun is_packet_out :: "event \<Rightarrow> bool" where
  "is_packet_out (Send dp (OFPPacketOut b d p acts)) = True"
| "is_packet_out e = False"

fun is_send :: "event \<Rightarrow> bool" where
  "is_send (Send dp m) = True"
| "is_send e = False"

fun sent_to :: "dpid \<Rightarrow> event \<Rightarrow> bool" where
  "sent_to s (Send dp m) = (dp_id dp = s)"
| "sent_to s e = False"

text \<open>The number of forwarding rules in a trace, and of those submitted to switch \<open>s\<close>.\<close>

definition n_rules :: "trace \<Rightarrow> nat" where
  "n_rules tr = length (filter is_flow_mod tr)"

definition rules_on :: "dpid \<Rightarrow> trace \<Rightarrow> nat" where
  "rules_on s tr = length (filter (\<lambda>e. is_flow_mod e \<and> sent_to s e) tr)"

text \<open>
  Every rule of the trace has its reverse in the trace: same switch, ports exchanged,
  source and destination addresses exchanged.
\<close>

definition both_directions :: "trace \<Rightarrow> bool" where
  "both_directions tr =
     (\<forall>e \<in> set tr. is_flow_mod e \<longrightarrow>
        (\<exists>dp eth a b p q. e = flow_rule dp (eth, a, b) p q
                           \<and> flow_rule dp (eth, b, a) q p \<in> set tr))"

text \<open>
  The registry as \<^verbatim>\<open>_state_change_handler\<close> fills it (\<^verbatim>\<open>self.datapaths[datapath.id] = datapath\<close>):
  each of the given switches has a handle, stored under the handle's own identifier.
\<close>

definition registered :: "(dpid \<rightharpoonup> datapath) \<Rightarrow> dpid set \<Rightarrow> bool" where
  "registered dps S = (\<forall>s \<in> S. \<exists>dp. dps s = Some dp \<and> dp_id dp = s)"

text \<open>
  What the two lookups and the packet-out add to the trace: the log record of a link that is
  not in \<^verbatim>\<open>link_to_port\<close>, and the packet-out message when one is built.
\<close>

definition link_log :: "((dpid \<times> dpid) \<rightharpoonup> (port_no \<times> port_no)) \<Rightarrow> dpid \<Rightarrow> dpid \<Rightarrow> trace" where
  "link_log l2p a b =
     (case l2p (a, b) of
        None \<Rightarrow> [Info ''dpid:%s->dpid:%s is not in links'' [AInt a, AInt b]]
      | Some pp \<Rightarrow> [])"

definition packet_out_events ::
  "datapath \<Rightarrow> int \<Rightarrow> port_no \<Rightarrow> port_no \<Rightarrow> string option \<Rightarrow> trace" where
  "packet_out_events dp buffer_id p q data =
     (case build_packet_out dp buffer_id p q data of
        None \<Rightarrow> []
      | Some out \<Rightarrow> [Send dp out])"

text \<open>
  The access points that \<^verbatim>\<open>flood\<close> visits: every port of \<^verbatim>\<open>access_ports\<close> that is not a key
  of \<^verbatim>\<open>access_table\<close>, in iteration order.
\<close>

definition unknown_access_points :: "NetworkAwareness \<Rightarrow> (dpid \<times> port_no) list" where
  "unknown_access_points aw =
     concat (map (\<lambda>(dpid, ports).
                    map (Pair dpid) (filter (\<lambda>port. map_of (access_table aw) (dpid, port) = None) ports))
                 (access_ports aw))"

text \<open>
  The forward-only directive of \<^verbatim>\<open>arp_forwarding\<close> and \<^verbatim>\<open>flood\<close>: a packet-out without a
  buffer, from the controller port, carrying the payload out of port \<open>p\<close>.
\<close>

definition directive :: "packet_in \<Rightarrow> datapath \<Rightarrow> string \<Rightarrow> port_no \<Rightarrow> event" where
  "directive msg dp payload p =
     Send dp (OFPPacketOut (OFP_NO_BUFFER (ofproto (msg_datapath msg))) (Some payload)
                (OFPP_CONTROLLER (ofproto (msg_datapath msg))) [OFPActionOutput p])"

section \<open>A small topology for the examples\<close>

text \<open>
  Four switches in a line, 1 - 2 - 3 - 4, all registered, with the port constants of
  OpenFlow 1.3; host 10.0.0.1 on port 1 of switch 1 and host 10.0.0.4 on port 9 of switch 4.
\<close>

definition ex_ofproto :: ofproto_consts where
  "ex_ofproto = \<lparr>OFPP_LOCAL = 4294967294, OFPP_CONTROLLER = 4294967293,
                  OFP_NO_BUFFER = 4294967295, OFPIT_APPLY_ACTIONS = 4\<rparr>"

definition ex_dp :: "dpid \<Rightarrow> datapath" where
  "ex_dp s = \<lparr>dp_id = s, ofproto = ex_ofproto\<rparr>"

definition ex_datapaths :: "dpid \<rightharpoonup> datapath" where
  "ex_datapaths = map_of [(1, ex_dp 1), (2, ex_dp 2), (3, ex_dp 3), (4, ex_dp 4)]"

definition ex_link_to_port :: "(dpid \<times> dpid) \<rightharpoonup> (port_no \<times> port_no)" where
  "ex_link_to_port =
     map_of [((1, 2), (2, 3)), ((2, 1), (3, 2)), ((2, 3), (4, 5)), ((3, 2), (5, 4)),
             ((3, 4), (6, 7)), ((4, 3), (7, 6))]"

definition ex_access_table :: "((dpid \<times> port_no) \<times> (ip_addr \<times> mac_addr)) list" where
  "ex_access_table =
     [((1, 1), (''10.0.0.1'', ''00:00:00:00:00:01'')),
      ((4, 9), (''10.0.0.4'', ''00:00:00:00:00:04''))]"

definition ex_flow_info :: "int \<times> ip_addr \<times> ip_addr \<times> port_no" where
  "ex_flow_info = (2048, ''10.0.0.1'', ''10.0.0.4'', 1)"

text \<open>The same links with the one from switch 2 to switch 3 missing.\<close>

definition ex_broken_links :: "(dpid \<times> dpid) \<rightharpoonup> (port_no \<times> port_no)" where
  "ex_broken_links =
     map_of [((1, 2), (2, 3)), ((2, 1), (3, 2)), ((3, 2), (5, 4)),
             ((3, 4), (6, 7)), ((4, 3), (7, 6))]"

text \<open>
  The topology module for the line of four switches: the two hosts are on access ports, and
  no shortest path has been computed yet.
\<close>

definition ex_awareness :: NetworkAwareness where
  "ex_awareness =
     \<lparr>access_ports = [(1, [1]), (4, [9])],
      access_table = ex_access_table,
      link_to_port = ex_link_to_port,
      shortest_paths = Map.empty,
      get_host_location = host_location ex_access_table\<rparr>"

definition ex_app :: ShortestForwarding where
  "ex_app = \<lparr>awareness = ex_awareness, datapaths = ex_datapaths\<rparr>"

definition ex_msg :: packet_in where
  "ex_msg = \<lparr>msg_datapath = ex_dp 1, msg_buffer_id = 7, msg_in_port = 1,
             msg_data = Some ''payload''\<rparr>"

text \<open>
  One switch, 7, with access ports 1, 2 and 3. In the first table only the host on port 1 is
  known; in the second the host 10.0.0.2 on port 3 is known as well. The only computed path
  is the one from switch 7 to itself.
\<close>

definition ex7_awareness ::
  "((dpid \<times> port_no) \<times> (ip_addr \<times> mac_addr)) list \<Rightarrow> NetworkAwareness" where
  "ex7_awareness table =
     \<lparr>access_ports = [(7, [1, 2, 3])],
      access_table = table,
      link_to_port = Map.empty,
      shortest_paths = [7 \<mapsto> [7 \<mapsto> [[7]]]],
      get_host_location = host_location table\<rparr>"

definition ex7_table_one :: "((dpid \<times> port_no) \<times> (ip_addr \<times> mac_addr)) list" where
  "ex7_table_one = [((7, 1), (''10.0.0.1'', ''00:00:00:00:00:01''))]"

definition ex7_table_two :: "((dpid \<times> port_no) \<times> (ip_addr \<times> mac_addr)) list" where
  "ex7_table_two =
     [((7, 1), (''10.0.0.1'', ''00:00:00:00:00:01'')),
      ((7, 3), (''10.0.0.2'', ''00:00:00:00:00:02''))]"

definition ex7_app ::
  "((dpid \<times> port_no) \<times> (ip_addr \<times> mac_addr)) list \<Rightarrow> ShortestForwarding" where
  "ex7_app table = \<lparr>awareness = ex7_awareness table, datapaths = [7 \<mapsto> ex_dp 7]\<rparr>"

definition ex7_msg :: packet_in where
  "ex7_msg = \<lparr>msg_datapath = ex_dp 7, msg_buffer_id = 4294967295, msg_in_port = 1,
              msg_data = Some ''arp''\<rparr>"

text \<open>Two switches with unknown access ports, of which only switch 8 is registered.\<close>

definition ex_unregistered_app :: ShortestForwarding where
  "ex_unregistered_app =
     \<lparr>awareness =
        \<lparr>access_ports = [(7, [1, 2, 3]), (8, [5])],
         access_table = ex7_table_one,
         link_to_port = Map.empty,
         shortest_paths = Map.empty,
         get_host_location = host_location ex7_table_one\<rparr>,
      datapaths = [8 \<mapsto> ex_dp 8]\<rparr>"

text \<open>The links of the line with the one from switch 1 to switch 2 missing.\<close>

definition ex_no_first_link :: "(dpid \<times> dpid) \<rightharpoonup> (port_no \<times> port_no)" where
  "ex_no_first_link =
     map_of [((2, 1), (3, 2)), ((2, 3), (4, 5)), ((3, 2), (5, 4)),
             ((3, 4), (6, 7)), ((4, 3), (7, 6))]"

text \<open>The registry of the line without switch 3, and without switch 4.\<close>

definition ex_datapaths_no3 :: "dpid \<rightharpoonup> datapath" where
  "ex_datapaths_no3 = map_of [(1, ex_dp 1), (2, ex_dp 2), (4, ex_dp 4)]"

definition ex_datapaths_no4 :: "dpid \<rightharpoonup> datapath" where
  "ex_datapaths_no4 = map_of [(1, ex_dp 1), (2, ex_dp 2), (3, ex_dp 3)]"

text \<open>
  Unknown access ports on switch 8 (registered) and then on switch 7 (unregistered).
\<close>

definition ex_unregistered_late_app :: ShortestForwarding where
  "ex_unregistered_late_app =
     \<lparr>awareness =
        \<lparr>access_ports = [(8, [5]), (7, [1, 2, 3])],
         access_table = ex7_table_one,
         link_to_port = Map.empty,
         shortest_paths = Map.empty,
         get_host_location = host_location ex7_table_one\<rparr>,
      datapaths = [8 \<mapsto> ex_dp 8]\<rparr>"

text \<open>
  Two access tables with the same entries in a different iteration order; the address
  10.0.0.4 is recorded on port 9 of switch 4 and on port 8 of switch 3.
\<close>

definition ex_table_moved_a :: "((dpid \<times> port_no) \<times> (ip_addr \<times> mac_addr)) list" where
  "ex_table_moved_a =
     [((1, 1), (''10.0.0.1'', ''00:00:00:00:00:01'')),
      ((4, 9), (''10.0.0.4'', ''00:00:00:00:00:04'')),
      ((3, 8), (''10.0.0.4'', ''00:00:00:00:00:04''))]"

definition ex_table_moved_b :: "((dpid \<times> port_no) \<times> (ip_addr \<times> mac_addr)) list" where
  "ex_table_moved_b =
     [((1, 1), (''10.0.0.1'', ''00:00:00:00:00:01'')),
      ((3, 8), (''10.0.0.4'', ''00:00:00:00:00:04'')),
      ((4, 9), (''10.0.0.4'', ''00:00:00:00:00:04''))]"

text \<open>The access table of the line in the other iteration order.\<close>

definition ex_access_table_rev :: "((dpid \<times> port_no) \<times> (ip_addr \<times> mac_addr)) list" where
  "ex_access_table_rev =
     [((4, 9), (''10.0.0.4'', ''00:00:00:00:00:04'')),
      ((1, 1), (''10.0.0.1'', ''00:00:00:00:00:01''))]"

text \<open>
  The unknown access points among the ports of the given switches, in iteration order.
\<close>

definition unknown_in ::
  "NetworkAwareness \<Rightarrow> (dpid \<times> port_no list) list \<Rightarrow> (dpid \<times> port_no) list" where
  "unknown_in aw aps =
     concat (map (\<lambda>(dpid, ports).
                    map (Pair dpid) (filter (\<lambda>port. map_of (access_table aw) (dpid, port) = None) ports))
                 aps)"

section \<open>Appending to the trace\<close>

lemma send_flow_mod_app: "send_flow_mod dp fi p q st = st @ [flow_rule dp fi p q]"
  by (simp add: send_flow_mod_def add_flow_def send_msg_def flow_rule_def split: prod.split)

lemma send_packet_out_app:
  "send_packet_out dp b p q d st = st @ packet_out_events dp b p q d"
  by (simp add: send_packet_out_def send_msg_def packet_out_events_def split: option.split)

lemma get_port_pair_from_link_app:
  "get_port_pair_from_link l2p a b st = (l2p (a, b), st @ link_log l2p a b)"
  by (simp add: get_port_pair_from_link_def link_log_def split: option.split)

lemma link_log_Some [simp]: "l2p (a, b) = Some pp \<Longrightarrow> link_log l2p a b = []"
  by (simp add: link_log_def)

lemma is_flow_mod_flow_rule [simp]: "is_flow_mod (flow_rule dp fi p q)"
  by (simp add: flow_rule_def)

lemma no_flow_mod_link_log [simp]: "filter is_flow_mod (link_log l2p a b) = []"
  by (simp add: link_log_def split: option.split)

lemma no_flow_mod_packet_out [simp]: "filter is_flow_mod (packet_out_events dp b p q d) = []"
  by (simp add: packet_out_events_def build_packet_out_def split: option.split)

section \<open>Both directions\<close>

lemma both_directions_no_rules:
  "filter is_flow_mod xs = [] \<Longrightarrow> both_directions xs"
  by (auto simp: both_directions_def filter_empty_conv)

lemma both_directions_append:
  "both_directions xs \<Longrightarrow> both_directions ys \<Longrightarrow> both_directions (xs @ ys)"
  unfolding both_directions_def by (metis Un_iff set_append)

lemma both_directions_Nil: "both_directions []"
  by (simp add: both_directions_def)

lemma both_directions_pair:
  "both_directions [flow_rule dp (eth, a, b) p q, flow_rule dp (eth, b, a) q p]"
  unfolding both_directions_def
  by (auto simp: flow_rule_def)

lemma both_directions_Cons_pair:
  "both_directions tr \<Longrightarrow>
   both_directions (flow_rule dp (eth, a, b) p q # flow_rule dp (eth, b, a) q p # tr)"
  using both_directions_append [OF both_directions_pair, of tr dp eth a b p q] by simp

lemma both_directions_Cons_other:
  "\<not> is_flow_mod e \<Longrightarrow> both_directions tr \<Longrightarrow> both_directions (e # tr)"
  using both_directions_append [OF both_directions_no_rules, of "[e]" tr] by simp

lemma both_directions_Cons_log:
  "both_directions tr \<Longrightarrow> both_directions (Info s args # tr)"
  "both_directions tr \<Longrightarrow> both_directions (Debug s args # tr)"
  by (simp_all add: both_directions_Cons_other)

lemma both_directions_link_log: "both_directions (link_log l2p a b)"
  by (rule both_directions_no_rules) simp

lemma both_directions_packet_out: "both_directions (packet_out_events dp buf p q d)"
  by (rule both_directions_no_rules) simp

lemmas both_directions_intros =
  both_directions_Nil both_directions_Cons_pair both_directions_Cons_log
  both_directions_append both_directions_link_log both_directions_packet_out

lemma inter_link_frame:
  "\<exists>r ev. both_directions ev \<and>
     (\<forall>st. inter_link dps l2p path (eth, a, b) (eth, b, a) is st = (r, st @ ev))"
proof (induction "is")
  case Nil
  show ?case by (auto intro: both_directions_Nil exI[of _ "[]"])
next
  case (Cons i rest)
  then obtain r ev where bd: "both_directions ev"
    and ih: "\<And>st. inter_link dps l2p path (eth, a, b) (eth, b, a) rest st = (r, st @ ev)"
    by blast
  let ?L1 = "link_log l2p (path ! (i - 1)) (path ! i)"
  let ?L2 = "link_log l2p (path ! i) (path ! (i + 1))"
  consider
      (skip) "l2p (path ! (i - 1), path ! i) = None \<or> l2p (path ! i, path ! (i + 1)) = None"
    | (nodp) p pn where "l2p (path ! (i - 1), path ! i) = Some p"
        "l2p (path ! i, path ! (i + 1)) = Some pn" "dps (path ! i) = None"
    | (inst) p pn dp where "l2p (path ! (i - 1), path ! i) = Some p"
        "l2p (path ! i, path ! (i + 1)) = Some pn" "dps (path ! i) = Some dp"
    by (cases "l2p (path ! (i - 1), path ! i)"; cases "l2p (path ! i, path ! (i + 1))";
        cases "dps (path ! i)") auto
  then show ?case
  proof cases
    case skip
    have "\<forall>st. inter_link dps l2p path (eth, a, b) (eth, b, a) (i # rest) st
             = (r, st @ (?L1 @ ?L2 @ ev))"
      using skip
      by (auto simp: get_port_pair_from_link_app ih split: option.splits)
    moreover have "both_directions (?L1 @ ?L2 @ ev)"
      by (intro both_directions_append both_directions_no_rules no_flow_mod_link_log bd)
    ultimately show ?thesis by blast
  next
    case nodp
    have "\<forall>st. inter_link dps l2p path (eth, a, b) (eth, b, a) (i # rest) st
             = (Inl KeyError, st @ [])"
      using nodp by (simp add: get_port_pair_from_link_app)
    then show ?thesis using both_directions_Nil by blast
  next
    case inst
    let ?R = "flow_rule dp (eth, a, b) (snd p) (fst pn) # flow_rule dp (eth, b, a) (fst pn) (snd p)
               # Debug ''inter_link flow install'' [] # ev"
    have "\<forall>st. inter_link dps l2p path (eth, a, b) (eth, b, a) (i # rest) st = (r, st @ ?R)"
      using inst by (simp add: get_port_pair_from_link_app send_flow_mod_app ih Let_def)
    moreover have "both_directions ?R"
      by (intro both_directions_Cons_pair both_directions_Cons_other bd) simp
    ultimately show ?thesis by blast
  qed
qed

lemma install_flow_frame:
  "\<exists>r ev. both_directions ev \<and>
     (\<forall>st. install_flow dps l2p acc path_opt (eth, a, b, inp) buf data st = (r, st @ ev))"
proof (cases path_opt)
  case None
  have "\<forall>st. install_flow dps l2p acc path_opt (eth, a, b, inp) buf data st
          = (Inr (), st @ [Info ''Path error!'' []])"
    using None by (simp add: install_flow_def)
  moreover have "both_directions [Info ''Path error!'' []]"
    by (rule both_directions_no_rules) simp
  ultimately show ?thesis by blast
next
  case (Some path)
  obtain r1 ev1 where bd1: "both_directions ev1"
    and loop: "\<And>st. inter_link dps l2p path (eth, a, b) (eth, b, a) [1 ..< length path - 1] st
                  = (r1, st @ ev1)"
    using inter_link_frame [of dps l2p path eth a b "[1 ..< length path - 1]"] by blast
  note loop' = loop [unfolded One_nat_def]
  let ?r = "fst (install_flow dps l2p acc path_opt (eth, a, b, inp) buf data [])"
  let ?ev = "snd (install_flow dps l2p acc path_opt (eth, a, b, inp) buf data [])"
  have "\<forall>st. install_flow dps l2p acc path_opt (eth, a, b, inp) buf data st = (?r, st @ ?ev)"
    using Some
    by (cases r1)
       (simp_all add: install_flow_def loop' get_port_pair_from_link_app send_flow_mod_app
          send_packet_out_app Let_def split: option.split prod.split sum.split)
  moreover have "both_directions ?ev"
    using Some
    by (cases r1)
       (auto simp: install_flow_def loop' get_port_pair_from_link_app send_flow_mod_app
          send_packet_out_app Let_def bd1 split: option.split prod.split sum.split
          intro!: both_directions_intros)
  ultimately show ?thesis by blast
qed


lemmas ex_defs = ex_ofproto_def ex_dp_def ex_datapaths_def ex_link_to_port_def
  ex_access_table_def ex_flow_info_def

lemma ex_long_path_trace:
  "install_flow ex_datapaths ex_link_to_port ex_access_table (Some [1, 2, 3, 4])
     ex_flow_info 7 None [] =
   (Inr (),
    [flow_rule (ex_dp 2) (2048, ''10.0.0.1'', ''10.0.0.4'') 3 4,
     flow_rule (ex_dp 2) (2048, ''10.0.0.4'', ''10.0.0.1'') 4 3,
     Debug ''inter_link flow install'' [],
     flow_rule (ex_dp 3) (2048, ''10.0.0.1'', ''10.0.0.4'') 5 6,
     flow_rule (ex_dp 3) (2048, ''10.0.0.4'', ''10.0.0.1'') 6 5,
     Debug ''inter_link flow install'' [],
     flow_rule (ex_dp 4) (2048, ''10.0.0.1'', ''10.0.0.4'') 7 9,
     flow_rule (ex_dp 4) (2048, ''10.0.0.4'', ''10.0.0.1'') 9 7,
     flow_rule (ex_dp 1) (2048, ''10.0.0.1'', ''10.0.0.4'') 1 2,
     flow_rule (ex_dp 1) (2048, ''10.0.0.4'', ''10.0.0.1'') 2 1,
     Send (ex_dp 1) (OFPPacketOut 7 None 1 [OFPActionOutput 2])])"
  by (simp add: ex_defs install_flow_def get_port_pair_from_link_app send_flow_mod_app
        send_packet_out_app upt_rec Let_def packet_out_events_def build_packet_out_def)

section \<open>Properties of flow installation\<close>

text \<open>
  C3: every invocation of \<^verbatim>\<open>install_flow\<close> installs rules in both directions. Whatever the
  arguments and however the call ends, the events it appends to the trace are such that each
  forwarding rule among them, matching ingress port \<open>p\<close>, source \<open>a\<close> and destination \<open>b\<close> with
  output port \<open>q\<close> on some switch, comes with the reverse rule on the same switch: ingress
  port \<open>q\<close>, source \<open>b\<close>, destination \<open>a\<close>, output port \<open>p\<close>.
\<close>

theorem install_flow_both_directions:
  assumes "install_flow dps l2p acc path_opt flow_info buf data st = (r, st')"
  shows "\<exists>ev. st' = st @ ev \<and> both_directions ev"
proof -
  obtain eth a b inp where fi: "flow_info = (eth, a, b, inp)"
    by (cases flow_info) auto
  from install_flow_frame [of dps l2p acc path_opt eth a b inp buf data] assms
  show ?thesis unfolding fi by auto
qed

theorem install_flow_both_directions_witness:
  "\<exists>ev. install_flow ex_datapaths ex_link_to_port ex_access_table (Some [1, 2, 3, 4])
          ex_flow_info 7 None [] = (Inr (), ev)
        \<and> both_directions ev
        \<and> flow_rule (ex_dp 3) (2048, ''10.0.0.1'', ''10.0.0.4'') 5 6 \<in> set ev
        \<and> flow_rule (ex_dp 3) (2048, ''10.0.0.4'', ''10.0.0.1'') 6 5 \<in> set ev"
  using install_flow_both_directions [OF ex_long_path_trace]
  by (simp add: ex_long_path_trace)

text \<open>
  C10: called with no path (\<^verbatim>\<open>None\<close>) or with the empty path, \<^verbatim>\<open>install_flow\<close> logs
  \<^verbatim>\<open>Path error!\<close> and returns: it sends no forwarding rule and no packet-out.
\<close>

theorem install_flow_no_path:
  "install_flow dps l2p acc None flow_info buf data st = (Inr (), st @ [Info ''Path error!'' []])
   \<and> install_flow dps l2p acc (Some []) flow_info buf data st
       = (Inr (), st @ [Info ''Path error!'' []])
   \<and> filter is_send [Info ''Path error!'' []] = []"
  by (simp add: install_flow_def)

section \<open>Counting the rules of a trace\<close>

lemma n_rules_simps [simp]:
  "n_rules [] = 0"
  "n_rules (xs @ ys) = n_rules xs + n_rules ys"
  "n_rules (flow_rule dp fi p q # tr) = Suc (n_rules tr)"
  "n_rules (Info s args # tr) = n_rules tr"
  "n_rules (Debug s args # tr) = n_rules tr"
  "n_rules (Send dp (OFPPacketOut buf d p acts) # tr) = n_rules tr"
  "n_rules (link_log l2p a b) = 0"
  "n_rules (packet_out_events dp buf p q d) = 0"
  by (simp_all add: n_rules_def)

lemma rules_on_simps [simp]:
  "rules_on s [] = 0"
  "rules_on s (xs @ ys) = rules_on s xs + rules_on s ys"
  "rules_on s (flow_rule dp fi p q # tr) = (if dp_id dp = s then 1 else 0) + rules_on s tr"
  "rules_on s (Info t args # tr) = rules_on s tr"
  "rules_on s (Debug t args # tr) = rules_on s tr"
  "rules_on s (Send dp (OFPPacketOut buf d p acts) # tr) = rules_on s tr"
  by (simp_all add: rules_on_def flow_rule_def)

lemma rules_on_no_rules: "filter is_flow_mod xs = [] \<Longrightarrow> rules_on s xs = 0"
  by (auto simp: rules_on_def filter_empty_conv)

lemma rules_on_logs [simp]:
  "rules_on s (link_log l2p a b) = 0"
  "rules_on s (packet_out_events dp buf p q d) = 0"
  by (simp_all add: rules_on_no_rules)

lemma is_packet_out_flow_rule [simp]: "\<not> is_packet_out (flow_rule dp fi p q)"
  by (simp add: flow_rule_def)

lemma packet_out_events_sent:
  "buf \<noteq> OFP_NO_BUFFER (ofproto dp) \<or> d \<noteq> None \<Longrightarrow>
   \<exists>b' d' acts. packet_out_events dp buf p q d = [Send dp (OFPPacketOut b' d' p acts)]"
  by (auto simp: packet_out_events_def build_packet_out_def)

lemma inter_link_counts:
  assumes "\<forall>i \<in> set is. l2p (path ! (i - 1), path ! i) \<noteq> None
                        \<and> l2p (path ! i, path ! (i + 1)) \<noteq> None"
    and "\<forall>i \<in> set is. \<exists>dp. dps (path ! i) = Some dp \<and> dp_id dp = path ! i"
  shows "\<exists>ev. (\<forall>st. inter_link dps l2p path fi bi is st = (Inr (), st @ ev))
            \<and> n_rules ev = 2 * length is
            \<and> (\<forall>s. rules_on s ev = 2 * count_list (map ((!) path) is) s)
            \<and> filter is_packet_out ev = []"
  using assms
proof (induction "is")
  case Nil
  show ?case by (intro exI[of _ "[]"]) simp
next
  case (Cons i rest)
  then obtain ev where ih: "\<And>st. inter_link dps l2p path fi bi rest st = (Inr (), st @ ev)"
    and n: "n_rules ev = 2 * length rest"
    and on: "\<And>s. rules_on s ev = 2 * count_list (map ((!) path) rest) s"
    and po: "filter is_packet_out ev = []"
    by auto
  from Cons.prems obtain p pn dp where l: "l2p (path ! (i - 1), path ! i) = Some p"
      "l2p (path ! i, path ! (i + 1)) = Some pn"
    and dp: "dps (path ! i) = Some dp" "dp_id dp = path ! i"
    by auto
  let ?ev = "flow_rule dp fi (snd p) (fst pn) # flow_rule dp bi (fst pn) (snd p)
              # Debug ''inter_link flow install'' [] # ev"
  have "\<forall>st. inter_link dps l2p path fi bi (i # rest) st = (Inr (), st @ ?ev)"
    using l dp by (simp add: get_port_pair_from_link_app send_flow_mod_app ih Let_def)
  moreover have "n_rules ?ev = 2 * length (i # rest)" by (simp add: n)
  moreover have "\<forall>s. rules_on s ?ev = 2 * count_list (map ((!) path) (i # rest)) s"
    using dp by (simp add: on)
  moreover have "filter is_packet_out ?ev = []" by (simp add: po)
  ultimately show ?case by blast
qed

lemma path_split:
  assumes "2 \<le> length path"
  shows "path = path ! 0 # map ((!) path) [1 ..< length path - 1] @ [path ! (length path - 1)]"
proof -
  from assms obtain m where m: "length path = Suc (Suc m)"
    by (metis Suc_le_D numeral_2_eq_2 Suc_le_mono)
  have "[0 ..< Suc (Suc m)] = 0 # [Suc 0 ..< Suc m] @ [Suc m]"
    by (simp add: upt_rec [of 0])
  then have "map ((!) path) [0 ..< length path]
             = path ! 0 # map ((!) path) [1 ..< length path - 1] @ [path ! (length path - 1)]"
    by (simp add: m)
  then show ?thesis by (simp add: map_nth)
qed


lemma count_list_distinct: "distinct xs \<Longrightarrow> x \<in> set xs \<Longrightarrow> count_list xs x = 1"
  by (induction xs) auto

lemma count_list_path:
  assumes "2 \<le> length path"
  shows "count_list path s =
           (if path ! 0 = s then 1 else 0)
           + count_list (map ((!) path) [1 ..< length path - 1]) s
           + (if path ! (length path - 1) = s then 1 else 0)"
proof -
  let ?mid = "map ((!) path) [1 ..< length path - 1]"
  have "count_list path s = count_list (path ! 0 # ?mid @ [path ! (length path - 1)]) s"
    using path_split [OF assms] by simp
  then show ?thesis by simp
qed

text \<open>
  C1 (as amended): on a path of \<open>n > 2\<close> distinct switches, all registered under their own
  identifiers, with every link of the path in \<^verbatim>\<open>link_to_port\<close> and the access port of the
  destination resolved, \<^verbatim>\<open>install_flow\<close> returns normally and installs exactly
  \<open>4 + 2 (n - 2)\<close> forwarding rules, 2 on each switch of the path (first, last and each of the
  \<open>n - 2\<close> interior ones); and when the packet has a buffer identifier other than
  \<^verbatim>\<open>OFP_NO_BUFFER\<close> or a payload, exactly one packet-out is sent, to the first switch, with
  the ingress port of the flow.
\<close>

theorem install_flow_long_path:
  assumes len: "2 < length path"
    and dist: "distinct path"
    and links: "\<forall>i. Suc i < length path \<longrightarrow> l2p (path ! i, path ! Suc i) \<noteq> None"
    and port: "get_port ip_dst acc \<noteq> None"
    and reg: "registered dps (set path)"
    and buf: "\<forall>dp. dps (path ! 0) = Some dp \<longrightarrow> buffer_id \<noteq> OFP_NO_BUFFER (ofproto dp) \<or> data \<noteq> None"
  shows "\<exists>ev first_dp.
           install_flow dps l2p acc (Some path) (eth_type, ip_src, ip_dst, in_port) buffer_id data st
             = (Inr (), st @ ev)
         \<and> n_rules ev = 4 + 2 * (length path - 2)
         \<and> (\<forall>s \<in> set path. rules_on s ev = 2)
         \<and> dps (path ! 0) = Some first_dp
         \<and> (\<exists>b d acts. filter is_packet_out ev = [Send first_dp (OFPPacketOut b d in_port acts)])"
proof -
  let ?n = "length path"
  let ?fi = "(eth_type, ip_src, ip_dst)" and ?bi = "(eth_type, ip_dst, ip_src)"
  have inner: "\<forall>i \<in> set [1 ..< ?n - 1]. l2p (path ! (i - 1), path ! i) \<noteq> None
                        \<and> l2p (path ! i, path ! (i + 1)) \<noteq> None"
  proof
    fix i assume "i \<in> set [1 ..< ?n - 1]"
    then have i: "0 < i" "Suc i < ?n" by auto
    then have "Suc (i - 1) = i" "Suc (i - 1) < ?n" by auto
    with links [rule_format, of "i - 1"] links [rule_format, of i] i
    show "l2p (path ! (i - 1), path ! i) \<noteq> None \<and> l2p (path ! i, path ! (i + 1)) \<noteq> None"
      by simp
  qed
  have regi: "\<And>i. i < ?n \<Longrightarrow> \<exists>dp. dps (path ! i) = Some dp \<and> dp_id dp = path ! i"
    using reg by (simp add: registered_def)
  have "\<forall>i \<in> set [1 ..< ?n - 1]. \<exists>dp. dps (path ! i) = Some dp \<and> dp_id dp = path ! i"
    using regi by auto
  from inter_link_counts [OF inner this, of ?fi ?bi]
  obtain ev1 where loop: "\<And>st. inter_link dps l2p path ?fi ?bi [1 ..< ?n - 1] st = (Inr (), st @ ev1)"
    and n1: "n_rules ev1 = 2 * length [1 ..< ?n - 1]"
    and on1: "\<And>s. rules_on s ev1 = 2 * count_list (map ((!) path) [1 ..< ?n - 1]) s"
    and po1: "filter is_packet_out ev1 = []"
    by blast
  note loop' = loop [unfolded One_nat_def]
  have inb: "0 < ?n" "?n - 1 < ?n" using len by auto
  from regi [OF inb(1)] obtain first_dp where fdp: "dps (path ! 0) = Some first_dp"
    "dp_id first_dp = path ! 0" by blast
  from regi [OF inb(2)] obtain last_dp where ldp: "dps (path ! (?n - 1)) = Some last_dp"
    "dp_id last_dp = path ! (?n - 1)" by blast
  have ne: "path \<noteq> []" using len by auto
  have s2: "Suc (?n - 2) = ?n - 1" "Suc (?n - 2) < ?n" "Suc 0 < ?n" using len by auto
  from links [rule_format, OF s2(2)] have "l2p (path ! (?n - 2), path ! (?n - 1)) \<noteq> None"
    unfolding s2(1) .
  then obtain pl where pl: "l2p (path ! (?n - 2), path ! (?n - 1)) = Some pl" by blast
  from links [rule_format, OF s2(3)] obtain pf where pf: "l2p (path ! 0, path ! Suc 0) = Some pf"
    by blast
  from port obtain dst_port where dp: "get_port ip_dst acc = Some dst_port" by auto
  from buf fdp packet_out_events_sent [of buffer_id first_dp data in_port "fst pf"]
  obtain b d acts where
    po: "packet_out_events first_dp buffer_id in_port (fst pf) data
           = [Send first_dp (OFPPacketOut b d in_port acts)]"
    by blast
  let ?ev = "ev1 @ [flow_rule last_dp ?fi (snd pl) dst_port, flow_rule last_dp ?bi dst_port (snd pl),
                    flow_rule first_dp ?fi in_port (fst pf), flow_rule first_dp ?bi (fst pf) in_port,
                    Send first_dp (OFPPacketOut b d in_port acts)]"
  have run: "install_flow dps l2p acc (Some path) (eth_type, ip_src, ip_dst, in_port) buffer_id data st
          = (Inr (), st @ ?ev)"
    using len fdp ldp pl pf dp po s2(3) ne
    by (simp add: install_flow_def loop' get_port_pair_from_link_app send_flow_mod_app
          send_packet_out_app Let_def)
  have cnt: "n_rules ?ev = 4 + 2 * (?n - 2)"
    using len by (simp add: n1)
  have pos: "filter is_packet_out ?ev = [Send first_dp (OFPPacketOut b d in_port acts)]"
    by (simp add: po1)
  have each: "\<forall>s \<in> set path. rules_on s ?ev = 2"
  proof
    fix s assume s: "s \<in> set path"
    have c: "count_list path s = 1"
      using dist s by (rule count_list_distinct)
    have "rules_on s ?ev = 2 * count_list path s"
      using len fdp ldp by (simp add: on1 count_list_path [of path s])
    with c show "rules_on s ?ev = 2" by simp
  qed
  from run cnt each fdp pos show ?thesis by blast
qed


theorem install_flow_long_path_witness:
  "\<exists>ev. install_flow ex_datapaths ex_link_to_port ex_access_table (Some [1, 2, 3, 4])
          (2048, ''10.0.0.1'', ''10.0.0.4'', 1) 7 None [] = (Inr (), ev)
        \<and> n_rules ev = 8
        \<and> rules_on 1 ev = 2 \<and> rules_on 2 ev = 2 \<and> rules_on 3 ev = 2 \<and> rules_on 4 ev = 2
        \<and> (\<exists>b d acts. filter is_packet_out ev = [Send (ex_dp 1) (OFPPacketOut b d 1 acts)])"
proof -
  have h1: "2 < length [1, 2, 3, 4 :: int]" by simp
  have h2: "distinct [1, 2, 3, 4 :: int]" by simp
  have h3: "\<forall>i. Suc i < length [1, 2, 3, 4 :: int]
              \<longrightarrow> ex_link_to_port ([1, 2, 3, 4] ! i, [1, 2, 3, 4] ! Suc i) \<noteq> None"
  proof (intro allI impI)
    fix i assume "Suc i < length [1, 2, 3, 4 :: int]"
    then have "i = 0 \<or> i = 1 \<or> i = 2" by auto
    then show "ex_link_to_port ([1, 2, 3, 4] ! i, [1, 2, 3, 4] ! Suc i) \<noteq> None"
      by (auto simp: ex_link_to_port_def)
  qed
  have h4: "get_port ''10.0.0.4'' ex_access_table \<noteq> None"
    by (simp add: ex_access_table_def)
  have h5: "registered ex_datapaths (set [1, 2, 3, 4])"
    by (simp add: registered_def ex_datapaths_def ex_dp_def)
  have h6: "\<forall>dp. ex_datapaths ([1, 2, 3, 4] ! 0) = Some dp
              \<longrightarrow> 7 \<noteq> OFP_NO_BUFFER (ofproto dp) \<or> (None :: string option) \<noteq> None"
    by (simp add: ex_datapaths_def ex_dp_def ex_ofproto_def)
  from install_flow_long_path
         [where eth_type = 2048 and ip_src = "''10.0.0.1''" and in_port = 1 and st = "[]",
          OF h1 h2 h3 h4 h5 h6]
  obtain ev first_dp where
    ev: "install_flow ex_datapaths ex_link_to_port ex_access_table (Some [1, 2, 3, 4])
           (2048, ''10.0.0.1'', ''10.0.0.4'', 1) 7 None [] = (Inr (), [] @ ev)"
      "n_rules ev = 4 + 2 * (length [1, 2, 3, 4 :: int] - 2)"
      "\<forall>s \<in> set [1, 2, 3, 4]. rules_on s ev = 2"
      "ex_datapaths ([1, 2, 3, 4] ! 0) = Some first_dp"
      "\<exists>b d acts. filter is_packet_out ev = [Send first_dp (OFPPacketOut b d 1 acts)]"
    by blast
  from ev(4) have "first_dp = ex_dp 1" by (simp add: ex_datapaths_def)
  with ev show ?thesis by (intro exI [of _ ev]) simp
qed

text \<open>
  C1 as stated fails on its total: on the path 1 - 2 - 3 - 4 of the example, with every link
  present and the access port resolved, 8 rules are installed, not \<open>2 + 2 (4 - 2) = 6\<close>.
\<close>

theorem install_flow_long_path_counterexample:
  "ex_link_to_port (1, 2) \<noteq> None \<and> ex_link_to_port (2, 3) \<noteq> None
   \<and> ex_link_to_port (3, 4) \<noteq> None
   \<and> get_port ''10.0.0.4'' ex_access_table \<noteq> None
   \<and> n_rules (snd (install_flow ex_datapaths ex_link_to_port ex_access_table
                        (Some [1, 2, 3, 4]) ex_flow_info 7 None []))
       \<noteq> 2 + 2 * (length [1, 2, 3, 4 :: int] - 2)"
proof (intro conjI)
  show "n_rules (snd (install_flow ex_datapaths ex_link_to_port ex_access_table
                        (Some [1, 2, 3, 4]) ex_flow_info 7 None []))
       \<noteq> 2 + 2 * (length [1, 2, 3, 4 :: int] - 2)"
    by (simp add: ex_long_path_trace)
qed (simp_all add: ex_link_to_port_def ex_access_table_def)

lemma is_packet_out_link_log [simp]: "filter is_packet_out (link_log l2p a b) = []"
  by (simp add: link_log_def split: option.split)

lemma inter_link_rules:
  assumes "\<forall>i \<in> set is. \<exists>dp. dps (path ! i) = Some dp \<and> dp_id dp = path ! i"
  shows "\<exists>ev. (\<forall>st. inter_link dps l2p path fi bi is st = (Inr (), st @ ev))
            \<and> (\<forall>s. rules_on s ev =
                   2 * length (filter (\<lambda>i. path ! i = s \<and> l2p (path ! (i - 1), path ! i) \<noteq> None
                                            \<and> l2p (path ! i, path ! (i + 1)) \<noteq> None) is))
            \<and> filter is_packet_out ev = []"
  using assms
proof (induction "is")
  case Nil
  show ?case by (intro exI[of _ "[]"]) simp
next
  case (Cons i rest)
  let ?linked = "\<lambda>i. l2p (path ! (i - 1), path ! i) \<noteq> None \<and> l2p (path ! i, path ! (i + 1)) \<noteq> None"
  from Cons obtain ev where ih: "\<And>st. inter_link dps l2p path fi bi rest st = (Inr (), st @ ev)"
    and on: "\<And>s. rules_on s ev = 2 * length (filter (\<lambda>i. path ! i = s \<and> ?linked i) rest)"
    and po: "filter is_packet_out ev = []"
    by auto
  from Cons.prems obtain dp where dp: "dps (path ! i) = Some dp" "dp_id dp = path ! i"
    by auto
  show ?case
  proof (cases "?linked i")
    case True
    then obtain p pn where l: "l2p (path ! (i - 1), path ! i) = Some p"
      "l2p (path ! i, path ! (i + 1)) = Some pn" by auto
    let ?ev = "flow_rule dp fi (snd p) (fst pn) # flow_rule dp bi (fst pn) (snd p)
                # Debug ''inter_link flow install'' [] # ev"
    have "\<forall>st. inter_link dps l2p path fi bi (i # rest) st = (Inr (), st @ ?ev)"
      using l dp by (simp add: get_port_pair_from_link_app send_flow_mod_app ih Let_def)
    moreover have "\<forall>s. rules_on s ?ev = 2 * length (filter (\<lambda>i. path ! i = s \<and> ?linked i) (i # rest))"
      using dp l by (simp add: on)
    moreover have "filter is_packet_out ?ev = []" by (simp add: po)
    ultimately show ?thesis by blast
  next
    case False
    let ?ev = "link_log l2p (path ! (i - 1)) (path ! i) @ link_log l2p (path ! i) (path ! (i + 1)) @ ev"
    have "\<forall>st. inter_link dps l2p path fi bi (i # rest) st = (Inr (), st @ ?ev)"
      using False
      by (auto simp: get_port_pair_from_link_app ih split: option.splits)
    moreover have "\<forall>s. rules_on s ?ev = 2 * length (filter (\<lambda>i. path ! i = s \<and> ?linked i) (i # rest))"
      using False by (simp add: on)
    moreover have "filter is_packet_out ?ev = []" by (simp add: po)
    ultimately show ?thesis by blast
  qed
qed


lemma length_filter_eq_upt:
  "length (filter (\<lambda>j. j = i \<and> P j) [a ..< b]) = (if a \<le> i \<and> i < b \<and> P i then 1 else 0)"
  by (induction b) auto

lemma interior_count:
  assumes "distinct path" "i < length path" "b \<le> length path"
  shows "length (filter (\<lambda>j. path ! j = path ! i \<and> P j) [a ..< b])
           = (if a \<le> i \<and> i < b \<and> P i then 1 else 0)"
proof -
  have "filter (\<lambda>j. path ! j = path ! i \<and> P j) [a ..< b] = filter (\<lambda>j. j = i \<and> P j) [a ..< b]"
    using assms by (intro filter_cong refl) (auto simp: nth_eq_iff_index_eq)
  then show ?thesis by (simp add: length_filter_eq_upt)
qed

lemma is_packet_out_packet_out_events [simp]:
  "filter is_packet_out (packet_out_events dp buf p q d) = packet_out_events dp buf p q d"
  by (simp add: packet_out_events_def build_packet_out_def Let_def split: option.split)

text \<open>
  The rules of a run over a path of at least two registered switches, counted per switch:
  2 for each interior position of the switch with both links present, 2 for the last switch
  when the last link and the access port are found, 2 for the first switch when moreover
  the first link is found.
\<close>

lemma install_flow_rules_on:
  assumes len: "2 \<le> length path"
    and reg: "registered dps (set path)"
  shows "\<exists>ev. install_flow dps l2p acc (Some path) (eth_type, ip_src, ip_dst, in_port)
                 buffer_id data st = (Inr (), st @ ev)
          \<and> (\<forall>s. rules_on s ev =
                 2 * length (filter (\<lambda>i. path ! i = s \<and> l2p (path ! (i - 1), path ! i) \<noteq> None
                                          \<and> l2p (path ! i, path ! (i + 1)) \<noteq> None)
                               [1 ..< length path - 1])
                 + (if (l2p (path ! (length path - 2), path ! (length path - 1)) \<noteq> None
                         \<and> get_port ip_dst acc \<noteq> None)
                       \<and> s = path ! (length path - 1) then 2 else 0)
                 + (if ((l2p (path ! (length path - 2), path ! (length path - 1)) \<noteq> None
                          \<and> get_port ip_dst acc \<noteq> None)
                        \<and> l2p (path ! 0, path ! 1) \<noteq> None)
                       \<and> s = path ! 0 then 2 else 0))
          \<and> (\<not> ((l2p (path ! (length path - 2), path ! (length path - 1)) \<noteq> None
                    \<and> get_port ip_dst acc \<noteq> None)
                  \<and> l2p (path ! 0, path ! 1) \<noteq> None)
               \<longrightarrow> filter is_packet_out ev = [])
          \<and> (\<forall>pf first_dp.
                 (l2p (path ! (length path - 2), path ! (length path - 1)) \<noteq> None
                    \<and> get_port ip_dst acc \<noteq> None)
                 \<and> l2p (path ! 0, path ! 1) = Some pf \<and> dps (path ! 0) = Some first_dp
               \<longrightarrow> filter is_packet_out ev
                     = packet_out_events first_dp buffer_id in_port (fst pf) data)"
proof -
  let ?n = "length path"
  let ?fi = "(eth_type, ip_src, ip_dst)" and ?bi = "(eth_type, ip_dst, ip_src)"
  let ?linked = "\<lambda>i. l2p (path ! (i - 1), path ! i) \<noteq> None \<and> l2p (path ! i, path ! (i + 1)) \<noteq> None"
  let ?L = "l2p (path ! (?n - 2), path ! (?n - 1)) \<noteq> None \<and> get_port ip_dst acc \<noteq> None"
  let ?F = "?L \<and> l2p (path ! 0, path ! 1) \<noteq> None"
  have ne: "path \<noteq> []" and inb: "0 < ?n" "?n - 1 < ?n" "Suc 0 < ?n" using len by auto
  have regi: "\<And>i. i < ?n \<Longrightarrow> \<exists>dp. dps (path ! i) = Some dp \<and> dp_id dp = path ! i"
    using reg by (simp add: registered_def)
  have "\<forall>i \<in> set [1 ..< ?n - 1]. \<exists>dp. dps (path ! i) = Some dp \<and> dp_id dp = path ! i"
    using regi by auto
  from inter_link_rules [OF this, of l2p ?fi ?bi]
  obtain ev1 where loop: "\<And>st. inter_link dps l2p path ?fi ?bi [1 ..< ?n - 1] st = (Inr (), st @ ev1)"
    and on1: "\<And>s. rules_on s ev1 = 2 * length (filter (\<lambda>i. path ! i = s \<and> ?linked i) [1 ..< ?n - 1])"
    and po1: "filter is_packet_out ev1 = []"
    by blast
  have loop': "(if 2 < ?n then inter_link dps l2p path ?fi ?bi [1 ..< ?n - 1] st
                else (Inr (), st)) = (Inr (), st @ ev1)"
  proof (cases "2 < ?n")
    case True
    then show ?thesis using loop [of st] by simp
  next
    case False
    with len have "?n = 2" by simp
    then show ?thesis using loop [of st] by simp
  qed
  from regi [OF inb(1)] obtain first_dp where fdp: "dps (path ! 0) = Some first_dp"
    "dp_id first_dp = path ! 0" by blast
  from regi [OF inb(2)] obtain last_dp where ldp: "dps (path ! (?n - 1)) = Some last_dp"
    "dp_id last_dp = path ! (?n - 1)" by blast
  have "\<exists>T. install_flow dps l2p acc (Some path) (eth_type, ip_src, ip_dst, in_port)
                 buffer_id data st = (Inr (), st @ ev1 @ T)
          \<and> (\<forall>s. rules_on s T = (if ?L \<and> s = path ! (?n - 1) then 2 else 0)
                                 + (if ?F \<and> s = path ! 0 then 2 else 0))
          \<and> (\<not> ?F \<longrightarrow> filter is_packet_out T = [])
          \<and> (\<forall>pf. ?L \<and> l2p (path ! 0, path ! 1) = Some pf
                 \<longrightarrow> filter is_packet_out T = packet_out_events first_dp buffer_id in_port (fst pf) data)"
  proof (cases "l2p (path ! (?n - 2), path ! (?n - 1))")
    case None
    show ?thesis
      by (rule exI [of _ "link_log l2p (path ! (?n - 2)) (path ! (?n - 1)) @ [Info ''Port is not found'' []]"])
         (use None ne inb fdp in \<open>simp add: install_flow_def Let_def loop' get_port_pair_from_link_app\<close>)
  next
    case (Some pl)
    note pl = Some
    show ?thesis
    proof (cases "get_port ip_dst acc")
      case None
      show ?thesis
        by (rule exI [of _ "[Info ''Last port is not found.'' []]"])
           (use None pl ne inb fdp in \<open>simp add: install_flow_def Let_def loop' get_port_pair_from_link_app\<close>)
    next
      case (Some dst_port)
      note dp = Some
      show ?thesis
      proof (cases "l2p (path ! 0, path ! Suc 0)")
        case None
        show ?thesis
          by (rule exI [of _ "[flow_rule last_dp ?fi (snd pl) dst_port,
                               flow_rule last_dp ?bi dst_port (snd pl)]
                              @ link_log l2p (path ! 0) (path ! Suc 0)
                              @ [Info ''Port not found in first hop.'' []]"])
             (use None pl dp ne inb fdp ldp in
               \<open>auto simp add: install_flow_def Let_def loop' get_port_pair_from_link_app send_flow_mod_app\<close>)
      next
        case (Some pf)
        show ?thesis
          by (rule exI [of _ "[flow_rule last_dp ?fi (snd pl) dst_port,
                               flow_rule last_dp ?bi dst_port (snd pl),
                               flow_rule first_dp ?fi in_port (fst pf),
                               flow_rule first_dp ?bi (fst pf) in_port]
                              @ packet_out_events first_dp buffer_id in_port (fst pf) data"])
             (use Some pl dp ne inb fdp ldp in
               \<open>auto simp add: install_flow_def Let_def loop' get_port_pair_from_link_app send_flow_mod_app
                  send_packet_out_app\<close>)
      qed
    qed
  qed
  then obtain T where T: "install_flow dps l2p acc (Some path) (eth_type, ip_src, ip_dst, in_port)
                 buffer_id data st = (Inr (), st @ ev1 @ T)
          \<and> (\<forall>s. rules_on s T = (if ?L \<and> s = path ! (?n - 1) then 2 else 0)
                                 + (if ?F \<and> s = path ! 0 then 2 else 0))
          \<and> (\<not> ?F \<longrightarrow> filter is_packet_out T = [])
          \<and> (\<forall>pf. ?L \<and> l2p (path ! 0, path ! 1) = Some pf
                 \<longrightarrow> filter is_packet_out T = packet_out_events first_dp buffer_id in_port (fst pf) data)" ..
  from T have run: "install_flow dps l2p acc (Some path) (eth_type, ip_src, ip_dst, in_port)
                 buffer_id data st = (Inr (), st @ ev1 @ T)" by (rule conjunct1)
  from T have onT: "\<And>s. rules_on s T = (if ?L \<and> s = path ! (?n - 1) then 2 else 0)
                                 + (if ?F \<and> s = path ! 0 then 2 else 0)"
    by simp
  from T have noT: "\<not> ?F \<Longrightarrow> filter is_packet_out T = []" by simp
  from T have poT: "\<And>pf. ?L \<Longrightarrow> l2p (path ! 0, path ! 1) = Some pf
                 \<Longrightarrow> filter is_packet_out T = packet_out_events first_dp buffer_id in_port (fst pf) data"
    by simp
  have C1: "\<forall>s. rules_on s (ev1 @ T) =
                 2 * length (filter (\<lambda>i. path ! i = s \<and> ?linked i) [1 ..< ?n - 1])
                 + (if ?L \<and> s = path ! (?n - 1) then 2 else 0)
                 + (if ?F \<and> s = path ! 0 then 2 else 0)"
    unfolding rules_on_simps on1 onT by simp
  have C2: "\<not> ?F \<longrightarrow> filter is_packet_out (ev1 @ T) = []"
    using noT po1 by auto
  have C3: "\<forall>pf fdp'. ?L \<and> l2p (path ! 0, path ! 1) = Some pf \<and> dps (path ! 0) = Some fdp'
               \<longrightarrow> filter is_packet_out (ev1 @ T)
                     = packet_out_events fdp' buffer_id in_port (fst pf) data"
    using poT po1 fdp by auto
  show ?thesis
    by (rule exI [of _ "ev1 @ T"]) (intro conjI run C1 C2 C3)
qed

text \<open>The same on a path without repetition, position by position.\<close>

lemma install_flow_rules_at:
  assumes len: "2 \<le> length path"
    and dist: "distinct path"
    and reg: "registered dps (set path)"
  shows "\<exists>ev. install_flow dps l2p acc (Some path) (eth_type, ip_src, ip_dst, in_port)
                 buffer_id data st = (Inr (), st @ ev)
          \<and> (\<forall>i < length path. rules_on (path ! i) ev =
                 (if 0 < i \<and> i < length path - 1
                       \<and> l2p (path ! (i - 1), path ! i) \<noteq> None
                       \<and> l2p (path ! i, path ! (i + 1)) \<noteq> None then 2 else 0)
                 + (if (l2p (path ! (length path - 2), path ! (length path - 1)) \<noteq> None
                         \<and> get_port ip_dst acc \<noteq> None)
                       \<and> i = length path - 1 then 2 else 0)
                 + (if ((l2p (path ! (length path - 2), path ! (length path - 1)) \<noteq> None
                          \<and> get_port ip_dst acc \<noteq> None)
                        \<and> l2p (path ! 0, path ! 1) \<noteq> None)
                       \<and> i = 0 then 2 else 0))
          \<and> (\<not> ((l2p (path ! (length path - 2), path ! (length path - 1)) \<noteq> None
                    \<and> get_port ip_dst acc \<noteq> None)
                  \<and> l2p (path ! 0, path ! 1) \<noteq> None)
               \<longrightarrow> filter is_packet_out ev = [])
          \<and> (\<forall>pf first_dp.
                 (l2p (path ! (length path - 2), path ! (length path - 1)) \<noteq> None
                    \<and> get_port ip_dst acc \<noteq> None)
                 \<and> l2p (path ! 0, path ! 1) = Some pf \<and> dps (path ! 0) = Some first_dp
               \<longrightarrow> filter is_packet_out ev
                     = packet_out_events first_dp buffer_id in_port (fst pf) data)"
proof -
  let ?n = "length path"
  let ?linked = "\<lambda>i. l2p (path ! (i - 1), path ! i) \<noteq> None \<and> l2p (path ! i, path ! (i + 1)) \<noteq> None"
  let ?L = "l2p (path ! (?n - 2), path ! (?n - 1)) \<noteq> None \<and> get_port ip_dst acc \<noteq> None"
  let ?F = "?L \<and> l2p (path ! 0, path ! 1) \<noteq> None"
  let ?run = "\<lambda>ev. install_flow dps l2p acc (Some path) (eth_type, ip_src, ip_dst, in_port)
                 buffer_id data st = (Inr (), st @ ev)"
  let ?no = "\<lambda>ev. \<not> ?F \<longrightarrow> filter is_packet_out ev = []"
  let ?po = "\<lambda>ev. \<forall>pf first_dp. ?L \<and> l2p (path ! 0, path ! 1) = Some pf \<and> dps (path ! 0) = Some first_dp
               \<longrightarrow> filter is_packet_out ev
                     = packet_out_events first_dp buffer_id in_port (fst pf) data"
  have inb: "0 < ?n" "?n - 1 < ?n" using len by auto
  from install_flow_rules_on [OF len reg]
  obtain ev where E: "?run ev
      \<and> (\<forall>s. rules_on s ev =
               2 * length (filter (\<lambda>i. path ! i = s \<and> ?linked i) [1 ..< ?n - 1])
               + (if ?L \<and> s = path ! (?n - 1) then 2 else 0)
               + (if ?F \<and> s = path ! 0 then 2 else 0))
      \<and> ?no ev \<and> ?po ev" ..
  from E have run: "?run ev" by (rule conjunct1)
  from E have on: "\<And>s. rules_on s ev =
               2 * length (filter (\<lambda>i. path ! i = s \<and> ?linked i) [1 ..< ?n - 1])
               + (if ?L \<and> s = path ! (?n - 1) then 2 else 0)
               + (if ?F \<and> s = path ! 0 then 2 else 0)"
    by simp
  from E have no: "?no ev" by (rule conjunct1 [OF conjunct2 [OF conjunct2]])
  from E have po: "?po ev" by (rule conjunct2 [OF conjunct2 [OF conjunct2]])
  have at: "\<forall>i < ?n. rules_on (path ! i) ev =
                 (if 0 < i \<and> i < ?n - 1 \<and> ?linked i then 2 else 0)
                 + (if ?L \<and> i = ?n - 1 then 2 else 0)
                 + (if ?F \<and> i = 0 then 2 else 0)"
  proof (intro allI impI)
    fix i assume i: "i < ?n"
    have a: "length (filter (\<lambda>j. path ! j = path ! i \<and> ?linked j) [1 ..< ?n - 1])
               = (if 1 \<le> i \<and> i < ?n - 1 \<and> ?linked i then 1 else 0)"
      using interior_count [OF dist i, of "?n - 1" ?linked 1] by simp
    have b: "(path ! i = path ! (?n - 1)) = (i = ?n - 1)"
      using dist i inb(2) by (simp add: nth_eq_iff_index_eq)
    have c: "(path ! i = path ! 0) = (i = 0)"
      using dist i inb(1) by (simp add: nth_eq_iff_index_eq)
    show "rules_on (path ! i) ev =
            (if 0 < i \<and> i < ?n - 1 \<and> ?linked i then 2 else 0)
            + (if ?L \<and> i = ?n - 1 then 2 else 0)
            + (if ?F \<and> i = 0 then 2 else 0)"
      unfolding on a b c by auto
  qed
  show ?thesis
    by (rule exI [of _ ev]) (intro conjI run at no po)
qed

text \<open>
  C2 (as amended): on a path of \<open>n \<ge> 2\<close> distinct registered switches \<^verbatim>\<open>install_flow\<close> returns
  normally with the trace extended (nothing submitted before is taken back), and a missing
  \<^verbatim>\<open>link_to_port\<close> entry costs exactly the rules of the switch that needs it, except at the
  last hop:
  \<^item> an interior switch gets its 2 rules when its incoming and its outgoing link are both
    present and none otherwise, whatever is missing at the other hops: the loop passes over
    a switch with a missing link and goes on with the next ones;
  \<^item> the last switch gets its 2 rules when the link of the last hop is present and the access
    port of the destination is resolved, and none otherwise;
  \<^item> the first switch gets its 2 rules when moreover the link of the first hop is present,
    and none otherwise: a missing last link stops the installation before the rules of the
    last and the first switch;
  \<^item> the packet-out is the one of the first switch to the port of the first link when the
    last link, the access port and the first link are all found, and there is none otherwise.
\<close>

theorem install_flow_missing_link:
  assumes len: "2 \<le> length path"
    and dist: "distinct path"
    and reg: "registered dps (set path)"
  shows "\<exists>ev. install_flow dps l2p acc (Some path) (eth_type, ip_src, ip_dst, in_port)
                 buffer_id data st = (Inr (), st @ ev)
          \<and> (\<forall>i. 0 < i \<and> Suc i < length path
                 \<longrightarrow> rules_on (path ! i) ev =
                       (if l2p (path ! (i - 1), path ! i) \<noteq> None
                           \<and> l2p (path ! i, path ! Suc i) \<noteq> None then 2 else 0))
          \<and> rules_on (path ! (length path - 1)) ev =
                (if l2p (path ! (length path - 2), path ! (length path - 1)) \<noteq> None
                    \<and> get_port ip_dst acc \<noteq> None then 2 else 0)
          \<and> rules_on (path ! 0) ev =
                (if l2p (path ! (length path - 2), path ! (length path - 1)) \<noteq> None
                    \<and> get_port ip_dst acc \<noteq> None
                    \<and> l2p (path ! 0, path ! 1) \<noteq> None then 2 else 0)
          \<and> (l2p (path ! (length path - 2), path ! (length path - 1)) = None
               \<or> get_port ip_dst acc = None \<or> l2p (path ! 0, path ! 1) = None
               \<longrightarrow> filter is_packet_out ev = [])
          \<and> (\<forall>pf first_dp.
                 l2p (path ! (length path - 2), path ! (length path - 1)) \<noteq> None
                 \<and> get_port ip_dst acc \<noteq> None \<and> l2p (path ! 0, path ! 1) = Some pf
                 \<and> dps (path ! 0) = Some first_dp
               \<longrightarrow> filter is_packet_out ev
                     = packet_out_events first_dp buffer_id in_port (fst pf) data)"
proof -
  let ?n = "length path"
  let ?linked = "\<lambda>i. l2p (path ! (i - 1), path ! i) \<noteq> None \<and> l2p (path ! i, path ! (i + 1)) \<noteq> None"
  let ?L = "l2p (path ! (?n - 2), path ! (?n - 1)) \<noteq> None \<and> get_port ip_dst acc \<noteq> None"
  let ?F = "?L \<and> l2p (path ! 0, path ! 1) \<noteq> None"
  let ?run = "\<lambda>ev. install_flow dps l2p acc (Some path) (eth_type, ip_src, ip_dst, in_port)
                 buffer_id data st = (Inr (), st @ ev)"
  let ?no = "\<lambda>ev. \<not> ?F \<longrightarrow> filter is_packet_out ev = []"
  let ?po = "\<lambda>ev. \<forall>pf first_dp. ?L \<and> l2p (path ! 0, path ! 1) = Some pf \<and> dps (path ! 0) = Some first_dp
               \<longrightarrow> filter is_packet_out ev
                     = packet_out_events first_dp buffer_id in_port (fst pf) data"
  have inb: "0 < ?n" "?n - 1 < ?n" "0 \<noteq> ?n - 1" using len by auto
  from install_flow_rules_at [OF len dist reg]
  obtain ev where E: "?run ev
      \<and> (\<forall>i < ?n. rules_on (path ! i) ev =
                 (if 0 < i \<and> i < ?n - 1 \<and> ?linked i then 2 else 0)
                 + (if ?L \<and> i = ?n - 1 then 2 else 0)
                 + (if ?F \<and> i = 0 then 2 else 0))
      \<and> ?no ev \<and> ?po ev" ..
  from E have run: "?run ev" by (rule conjunct1)
  from E have at: "\<And>i. i < ?n \<Longrightarrow> rules_on (path ! i) ev =
                 (if 0 < i \<and> i < ?n - 1 \<and> ?linked i then 2 else 0)
                 + (if ?L \<and> i = ?n - 1 then 2 else 0)
                 + (if ?F \<and> i = 0 then 2 else 0)"
    by simp
  from E have no: "?no ev" by (rule conjunct1 [OF conjunct2 [OF conjunct2]])
  from E have po: "?po ev" by (rule conjunct2 [OF conjunct2 [OF conjunct2]])
  have C1: "\<forall>i. 0 < i \<and> Suc i < ?n
                 \<longrightarrow> rules_on (path ! i) ev =
                       (if l2p (path ! (i - 1), path ! i) \<noteq> None
                           \<and> l2p (path ! i, path ! Suc i) \<noteq> None then 2 else 0)"
  proof (intro allI impI)
    fix i assume a: "0 < i \<and> Suc i < ?n"
    then have i: "i < ?n" "i \<noteq> 0" "i \<noteq> ?n - 1" "i < ?n - 1" by auto
    show "rules_on (path ! i) ev =
            (if l2p (path ! (i - 1), path ! i) \<noteq> None
                \<and> l2p (path ! i, path ! Suc i) \<noteq> None then 2 else 0)"
      unfolding at [OF i(1)] using i by simp
  qed
  have C2: "rules_on (path ! (?n - 1)) ev = (if ?L then 2 else 0)"
    unfolding at [OF inb(2)] using inb by simp
  have "rules_on (path ! 0) ev = (if ?F then 2 else 0)"
    unfolding at [OF inb(1)] using inb by simp
  then have C3: "rules_on (path ! 0) ev =
                (if l2p (path ! (?n - 2), path ! (?n - 1)) \<noteq> None
                    \<and> get_port ip_dst acc \<noteq> None
                    \<and> l2p (path ! 0, path ! 1) \<noteq> None then 2 else 0)"
    by (simp add: conj_assoc)
  have C4: "l2p (path ! (?n - 2), path ! (?n - 1)) = None
               \<or> get_port ip_dst acc = None \<or> l2p (path ! 0, path ! 1) = None
               \<longrightarrow> filter is_packet_out ev = []"
    using no by auto
  have C5: "\<forall>pf first_dp.
                 l2p (path ! (?n - 2), path ! (?n - 1)) \<noteq> None
                 \<and> get_port ip_dst acc \<noteq> None \<and> l2p (path ! 0, path ! 1) = Some pf
                 \<and> dps (path ! 0) = Some first_dp
               \<longrightarrow> filter is_packet_out ev
                     = packet_out_events first_dp buffer_id in_port (fst pf) data"
    using po by auto
  show ?thesis
    by (rule exI [of _ ev]) (intro conjI run C1 C2 C3 C4 C5)
qed

theorem install_flow_missing_link_witness:
  "(\<exists>ev. install_flow ex_datapaths ex_broken_links ex_access_table (Some [1, 2, 3, 4])
           (2048, ''10.0.0.1'', ''10.0.0.4'', 1) 7 None [] = (Inr (), ev)
         \<and> rules_on 2 ev = 0 \<and> rules_on 3 ev = 0 \<and> rules_on 4 ev = 2 \<and> rules_on 1 ev = 2
         \<and> filter is_packet_out ev = [Send (ex_dp 1) (OFPPacketOut 7 None 1 [OFPActionOutput 2])])
   \<and> (\<exists>ev. install_flow ex_datapaths ex_no_first_link ex_access_table (Some [1, 2, 3, 4])
           (2048, ''10.0.0.1'', ''10.0.0.4'', 1) 7 None [] = (Inr (), ev)
         \<and> rules_on 2 ev = 0 \<and> rules_on 3 ev = 2 \<and> rules_on 4 ev = 2 \<and> rules_on 1 ev = 0
         \<and> filter is_packet_out ev = [])"
proof -
  have h1: "2 \<le> length [1, 2, 3, 4 :: int]" by simp
  have h2: "distinct [1, 2, 3, 4 :: int]" by simp
  have h3: "registered ex_datapaths (set [1, 2, 3, 4])"
    by (simp add: registered_def ex_datapaths_def ex_dp_def)
  have port: "get_port ''10.0.0.4'' ex_access_table \<noteq> None"
    by (simp add: ex_access_table_def)
  have fdp: "ex_datapaths 1 = Some (ex_dp 1)"
    by (simp add: ex_datapaths_def)
  have po: "packet_out_events (ex_dp 1) 7 1 2 None
              = [Send (ex_dp 1) (OFPPacketOut 7 None 1 [OFPActionOutput 2])]"
    by (simp add: packet_out_events_def build_packet_out_def ex_dp_def ex_ofproto_def)
  note broken = install_flow_missing_link
         [where l2p = ex_broken_links and acc = ex_access_table and eth_type = 2048
            and ip_src = "''10.0.0.1''" and ip_dst = "''10.0.0.4''" and in_port = 1
            and buffer_id = 7 and data = None and st = "[]", OF h1 h2 h3]
  note nofirst = install_flow_missing_link
         [where l2p = ex_no_first_link and acc = ex_access_table and eth_type = 2048
            and ip_src = "''10.0.0.1''" and ip_dst = "''10.0.0.4''" and in_port = 1
            and buffer_id = 7 and data = None and st = "[]", OF h1 h2 h3]
  have a: "\<exists>ev. install_flow ex_datapaths ex_broken_links ex_access_table (Some [1, 2, 3, 4])
           (2048, ''10.0.0.1'', ''10.0.0.4'', 1) 7 None [] = (Inr (), ev)
         \<and> rules_on 2 ev = 0 \<and> rules_on 3 ev = 0 \<and> rules_on 4 ev = 2 \<and> rules_on 1 ev = 2
         \<and> filter is_packet_out ev = [Send (ex_dp 1) (OFPPacketOut 7 None 1 [OFPActionOutput 2])]"
    using broken
    apply (elim exE conjE)
    subgoal premises p for ev
      using p(1) p(2) [rule_format, of 1] p(2) [rule_format, of 2] p(3) p(4)
        p(6) [rule_format, of "(2, 3)" "ex_dp 1"] port fdp po
      by (intro exI [of _ ev]) (simp add: ex_broken_links_def)
    done
  have b: "\<exists>ev. install_flow ex_datapaths ex_no_first_link ex_access_table (Some [1, 2, 3, 4])
           (2048, ''10.0.0.1'', ''10.0.0.4'', 1) 7 None [] = (Inr (), ev)
         \<and> rules_on 2 ev = 0 \<and> rules_on 3 ev = 2 \<and> rules_on 4 ev = 2 \<and> rules_on 1 ev = 0
         \<and> filter is_packet_out ev = []"
    using nofirst
    apply (elim exE conjE)
    subgoal premises p for ev
      using p(1) p(2) [rule_format, of 1] p(2) [rule_format, of 2] p(3) p(4) p(5) port
      by (intro exI [of _ ev]) (simp add: ex_no_first_link_def)
    done
  from a b show ?thesis by (rule conjI)
qed

text \<open>
  C2 as stated fails for an interior hop: on the path 1 - 2 - 3 - 4 with the link 2 - 3 missing
  from \<^verbatim>\<open>link_to_port\<close>, the loop logs the missing link for switches 2 and 3 and goes on;
  the rules of switch 4 and of switch 1 are installed and the packet is sent out of switch 1.
\<close>

theorem install_flow_missing_link_counterexample:
  "ex_broken_links (2, 3) = None
   \<and> install_flow ex_datapaths ex_broken_links ex_access_table (Some [1, 2, 3, 4])
         ex_flow_info 7 None [] =
       (Inr (),
        [Info ''dpid:%s->dpid:%s is not in links'' [AInt 2, AInt 3],
         Info ''dpid:%s->dpid:%s is not in links'' [AInt 2, AInt 3],
         flow_rule (ex_dp 4) (2048, ''10.0.0.1'', ''10.0.0.4'') 7 9,
         flow_rule (ex_dp 4) (2048, ''10.0.0.4'', ''10.0.0.1'') 9 7,
         flow_rule (ex_dp 1) (2048, ''10.0.0.1'', ''10.0.0.4'') 1 2,
         flow_rule (ex_dp 1) (2048, ''10.0.0.4'', ''10.0.0.1'') 2 1,
         Send (ex_dp 1) (OFPPacketOut 7 None 1 [OFPActionOutput 2])])"
  by (simp add: ex_defs ex_broken_links_def install_flow_def get_port_pair_from_link_def
        send_flow_mod_app send_packet_out_app upt_rec Let_def packet_out_events_def
        build_packet_out_def)

section \<open>Installing the same flow twice\<close>

lemma get_port_None_iff:
  "get_port ip acc = None \<longleftrightarrow> (\<forall>e \<in> set acc. fst (snd e) \<noteq> ip)"
  by (induction acc) (auto split: if_splits)

lemma get_port_Some:
  "get_port ip acc = Some p \<Longrightarrow> \<exists>e \<in> set acc. fst (snd e) = ip \<and> snd (fst e) = p"
  by (induction acc) (auto split: if_splits)

lemma get_port_same_contents:
  assumes "set acc2 = set acc1"
    and "\<forall>e1 \<in> set acc1. \<forall>e2 \<in> set acc1.
           fst (snd e1) = ip \<and> fst (snd e2) = ip \<longrightarrow> snd (fst e1) = snd (fst e2)"
  shows "get_port ip acc2 = get_port ip acc1"
proof (cases "get_port ip acc1")
  case None
  then have "\<forall>e \<in> set acc2. fst (snd e) \<noteq> ip"
    using assms(1) by (simp add: get_port_None_iff)
  then have "get_port ip acc2 = None" by (simp add: get_port_None_iff)
  with None show ?thesis by simp
next
  case (Some p)
  from get_port_Some [OF Some] obtain e1 where e1: "e1 \<in> set acc1" "fst (snd e1) = ip"
    "snd (fst e1) = p" by blast
  then have "get_port ip acc2 \<noteq> None"
    using assms(1) by (auto simp: get_port_None_iff)
  then obtain q where q: "get_port ip acc2 = Some q" by auto
  from get_port_Some [OF q] assms(1) obtain e2 where e2: "e2 \<in> set acc1" "fst (snd e2) = ip"
    "snd (fst e2) = q" by blast
  from assms(2) e1 e2 have "p = q" by blast
  with Some q show ?thesis by simp
qed

lemma install_flow_get_port_cong:
  assumes "get_port ip_dst acc2 = get_port ip_dst acc1"
  shows "install_flow dps l2p acc2 path_opt (eth_type, ip_src, ip_dst, in_port) buffer_id data st
     = install_flow dps l2p acc1 path_opt (eth_type, ip_src, ip_dst, in_port) buffer_id data st"
  unfolding install_flow_def prod.case assms by (rule refl)

text \<open>
  C9 (as amended): installing the same flow over the same path twice, with the same registry
  and link table and with an access table of the same contents, submits the same events both
  times, provided that the access table is iterated in the same order both times or that all
  its entries for the destination address carry the same port: the second call, started on
  the trace the first one left, ends the same way and appends exactly what the first call
  appended. What is appended is not empty: on a path of \<open>n \<ge> 2\<close> distinct registered switches
  with every link present and the access port resolved, each call returns normally and
  submits 2 rules to each switch of the path.
\<close>

theorem install_flow_idempotent:
  assumes tables: "acc2 = acc1
           \<or> (set acc2 = set acc1
               \<and> (\<forall>e1 \<in> set acc1. \<forall>e2 \<in> set acc1.
                     fst (snd e1) = ip_dst \<and> fst (snd e2) = ip_dst
                     \<longrightarrow> snd (fst e1) = snd (fst e2)))"
    and run1: "install_flow dps l2p acc1 path_opt (eth_type, ip_src, ip_dst, in_port) buffer_id data st
           = (r1, st1)"
    and run2: "install_flow dps l2p acc2 path_opt (eth_type, ip_src, ip_dst, in_port) buffer_id data st1
           = (r2, st2)"
  shows "r2 = r1
         \<and> (\<exists>ev. st1 = st @ ev \<and> st2 = st1 @ ev
               \<and> (\<forall>path. path_opt = Some path \<and> 2 \<le> length path \<and> distinct path
                          \<and> registered dps (set path)
                          \<and> (\<forall>i. Suc i < length path \<longrightarrow> l2p (path ! i, path ! Suc i) \<noteq> None)
                          \<and> get_port ip_dst acc1 \<noteq> None
                     \<longrightarrow> r1 = Inr () \<and> (\<forall>i < length path. rules_on (path ! i) ev = 2)))"
proof -
  have gp: "get_port ip_dst acc2 = get_port ip_dst acc1"
    using tables get_port_same_contents [of acc2 acc1 ip_dst] by blast
  from install_flow_get_port_cong [OF gp] run2
  have run2': "install_flow dps l2p acc1 path_opt (eth_type, ip_src, ip_dst, in_port) buffer_id data st1
           = (r2, st2)"
    by simp
  from install_flow_frame [of dps l2p acc1 path_opt eth_type ip_src ip_dst in_port buffer_id data]
  obtain r ev where fr: "\<And>st. install_flow dps l2p acc1 path_opt (eth_type, ip_src, ip_dst, in_port)
                            buffer_id data st = (r, st @ ev)"
    by blast
  from fr [of st] run1 have a: "r1 = r" "st1 = st @ ev" by simp_all
  from fr [of st1] run2' have b: "r2 = r" "st2 = st1 @ ev" by simp_all
  have cont: "\<forall>path. path_opt = Some path \<and> 2 \<le> length path \<and> distinct path
                          \<and> registered dps (set path)
                          \<and> (\<forall>i. Suc i < length path \<longrightarrow> l2p (path ! i, path ! Suc i) \<noteq> None)
                          \<and> get_port ip_dst acc1 \<noteq> None
                     \<longrightarrow> r1 = Inr () \<and> (\<forall>i < length path. rules_on (path ! i) ev = 2)"
  proof (intro allI impI)
    fix path
    assume p: "path_opt = Some path \<and> 2 \<le> length path \<and> distinct path
                          \<and> registered dps (set path)
                          \<and> (\<forall>i. Suc i < length path \<longrightarrow> l2p (path ! i, path ! Suc i) \<noteq> None)
                          \<and> get_port ip_dst acc1 \<noteq> None"
    let ?n = "length path"
    let ?linked = "\<lambda>i. l2p (path ! (i - 1), path ! i) \<noteq> None \<and> l2p (path ! i, path ! (i + 1)) \<noteq> None"
    let ?L = "l2p (path ! (?n - 2), path ! (?n - 1)) \<noteq> None \<and> get_port ip_dst acc1 \<noteq> None"
    let ?F = "?L \<and> l2p (path ! 0, path ! 1) \<noteq> None"
    let ?run = "\<lambda>ev. install_flow dps l2p acc1 (Some path) (eth_type, ip_src, ip_dst, in_port)
                 buffer_id data st = (Inr (), st @ ev)"
    let ?no = "\<lambda>ev. \<not> ?F \<longrightarrow> filter is_packet_out ev = []"
    let ?po = "\<lambda>ev. \<forall>pf first_dp. ?L \<and> l2p (path ! 0, path ! 1) = Some pf \<and> dps (path ! 0) = Some first_dp
               \<longrightarrow> filter is_packet_out ev
                     = packet_out_events first_dp buffer_id in_port (fst pf) data"
    from p have popt: "path_opt = Some path" by (rule conjunct1)
    from p have len: "2 \<le> ?n" by simp
    from p have dist: "distinct path" by simp
    from p have reg: "registered dps (set path)" by simp
    from p have links: "\<And>i. Suc i < ?n \<Longrightarrow> l2p (path ! i, path ! Suc i) \<noteq> None" by blast
    from p have port: "get_port ip_dst acc1 \<noteq> None" by simp
    from install_flow_rules_at [OF len dist reg]
    obtain ev' where E: "?run ev'
      \<and> (\<forall>i < ?n. rules_on (path ! i) ev' =
                 (if 0 < i \<and> i < ?n - 1 \<and> ?linked i then 2 else 0)
                 + (if ?L \<and> i = ?n - 1 then 2 else 0)
                 + (if ?F \<and> i = 0 then 2 else 0))
      \<and> ?no ev' \<and> ?po ev'" ..
    from E have run: "?run ev'" by (rule conjunct1)
    from E have at: "\<And>i. i < ?n \<Longrightarrow> rules_on (path ! i) ev' =
                 (if 0 < i \<and> i < ?n - 1 \<and> ?linked i then 2 else 0)
                 + (if ?L \<and> i = ?n - 1 then 2 else 0)
                 + (if ?F \<and> i = 0 then 2 else 0)"
      by simp
    from run fr [of st] popt have same: "r = Inr ()" "ev' = ev" by simp_all
    have s2: "Suc (?n - 2) = ?n - 1" "Suc (?n - 2) < ?n" "Suc 0 < ?n" using len by auto
    from links [OF s2(2)] have last: "l2p (path ! (?n - 2), path ! (?n - 1)) \<noteq> None"
      unfolding s2(1) .
    from links [OF s2(3)] have first: "l2p (path ! 0, path ! 1) \<noteq> None" by simp
    have inner: "?linked i" if "0 < i" "i < ?n - 1" for i
    proof -
      from that have "Suc (i - 1) = i" "Suc (i - 1) < ?n" "Suc i < ?n" by auto
      with links [of "i - 1"] links [of i] show ?thesis by simp
    qed
    have each: "\<forall>i < ?n. rules_on (path ! i) ev = 2"
    proof (intro allI impI)
      fix i assume i: "i < ?n"
      consider "i = 0" | "0 < i" "i < ?n - 1" | "0 < i" "i = ?n - 1" using i by linarith
      then show "rules_on (path ! i) ev = 2"
      proof cases
        case 1
        then show ?thesis using at [OF i] last first port len unfolding same by simp
      next
        case 2
        then show ?thesis using at [OF i] inner [OF 2] unfolding same by simp
      next
        case 3
        then show ?thesis using at [OF i] last port unfolding same by simp
      qed
    qed
    from a(1) same(1) have "r1 = Inr ()" by simp
    then show "r1 = Inr () \<and> (\<forall>i < ?n. rules_on (path ! i) ev = 2)" using each by (rule conjI)
  qed
  from a b have "r2 = r1" by simp
  moreover have "\<exists>ev. st1 = st @ ev \<and> st2 = st1 @ ev
               \<and> (\<forall>path. path_opt = Some path \<and> 2 \<le> length path \<and> distinct path
                          \<and> registered dps (set path)
                          \<and> (\<forall>i. Suc i < length path \<longrightarrow> l2p (path ! i, path ! Suc i) \<noteq> None)
                          \<and> get_port ip_dst acc1 \<noteq> None
                     \<longrightarrow> r1 = Inr () \<and> (\<forall>i < length path. rules_on (path ! i) ev = 2))"
    by (rule exI [of _ ev]) (intro conjI a(2) b(2) cont)
  ultimately show ?thesis by (rule conjI)
qed

theorem install_flow_idempotent_witness:
  "\<exists>ev. install_flow ex_datapaths ex_link_to_port ex_access_table (Some [1, 2, 3, 4])
          (2048, ''10.0.0.1'', ''10.0.0.4'', 1) 7 None [] = (Inr (), ev)
        \<and> install_flow ex_datapaths ex_link_to_port ex_access_table_rev (Some [1, 2, 3, 4])
            (2048, ''10.0.0.1'', ''10.0.0.4'', 1) 7 None ev = (Inr (), ev @ ev)
        \<and> rules_on 1 ev = 2 \<and> rules_on 2 ev = 2 \<and> rules_on 3 ev = 2 \<and> rules_on 4 ev = 2
        \<and> ev \<noteq> []"
proof -
  let ?ev = "[flow_rule (ex_dp 2) (2048, ''10.0.0.1'', ''10.0.0.4'') 3 4,
     flow_rule (ex_dp 2) (2048, ''10.0.0.4'', ''10.0.0.1'') 4 3,
     Debug ''inter_link flow install'' [],
     flow_rule (ex_dp 3) (2048, ''10.0.0.1'', ''10.0.0.4'') 5 6,
     flow_rule (ex_dp 3) (2048, ''10.0.0.4'', ''10.0.0.1'') 6 5,
     Debug ''inter_link flow install'' [],
     flow_rule (ex_dp 4) (2048, ''10.0.0.1'', ''10.0.0.4'') 7 9,
     flow_rule (ex_dp 4) (2048, ''10.0.0.4'', ''10.0.0.1'') 9 7,
     flow_rule (ex_dp 1) (2048, ''10.0.0.1'', ''10.0.0.4'') 1 2,
     flow_rule (ex_dp 1) (2048, ''10.0.0.4'', ''10.0.0.1'') 2 1,
     Send (ex_dp 1) (OFPPacketOut 7 None 1 [OFPActionOutput 2])]"
  let ?P = "[1, 2, 3, 4 :: int]"
  have run1: "install_flow ex_datapaths ex_link_to_port ex_access_table (Some ?P)
          (2048, ''10.0.0.1'', ''10.0.0.4'', 1) 7 None [] = (Inr (), ?ev)"
    using ex_long_path_trace by (simp add: ex_flow_info_def)
  have h: "ex_access_table_rev = ex_access_table
           \<or> (set ex_access_table_rev = set ex_access_table
               \<and> (\<forall>e1 \<in> set ex_access_table. \<forall>e2 \<in> set ex_access_table.
                     fst (snd e1) = ''10.0.0.4'' \<and> fst (snd e2) = ''10.0.0.4''
                     \<longrightarrow> snd (fst e1) = snd (fst e2)))"
    by (auto simp: ex_access_table_rev_def ex_access_table_def)
  obtain r2 st2 where run2:
    "install_flow ex_datapaths ex_link_to_port ex_access_table_rev (Some ?P)
            (2048, ''10.0.0.1'', ''10.0.0.4'', 1) 7 None ?ev = (r2, st2)"
    by (cases "install_flow ex_datapaths ex_link_to_port ex_access_table_rev (Some ?P)
            (2048, ''10.0.0.1'', ''10.0.0.4'', 1) 7 None ?ev")
  have links: "\<forall>i. Suc i < length ?P \<longrightarrow> ex_link_to_port (?P ! i, ?P ! Suc i) \<noteq> None"
  proof (intro allI impI)
    fix i :: nat
    assume "Suc i < length ?P"
    then have "i = 0 \<or> i = 1 \<or> i = 2" by auto
    then show "ex_link_to_port (?P ! i, ?P ! Suc i) \<noteq> None"
      by (auto simp: ex_link_to_port_def)
  qed
  have complete: "Some ?P = Some ?P \<and> 2 \<le> length ?P \<and> distinct ?P
                          \<and> registered ex_datapaths (set ?P)
                          \<and> (\<forall>i. Suc i < length ?P \<longrightarrow> ex_link_to_port (?P ! i, ?P ! Suc i) \<noteq> None)
                          \<and> get_port ''10.0.0.4'' ex_access_table \<noteq> None"
    by (intro conjI links)
       (simp_all add: registered_def ex_datapaths_def ex_dp_def ex_access_table_def)
  let ?C = "\<lambda>ev. \<forall>path. Some ?P = Some path \<and> 2 \<le> length path \<and> distinct path
                          \<and> registered ex_datapaths (set path)
                          \<and> (\<forall>i. Suc i < length path
                                \<longrightarrow> ex_link_to_port (path ! i, path ! Suc i) \<noteq> None)
                          \<and> get_port ''10.0.0.4'' ex_access_table \<noteq> None
                     \<longrightarrow> (Inr () :: py_error + unit) = Inr ()
                         \<and> (\<forall>i < length path. rules_on (path ! i) ev = 2)"
  have R: "r2 = Inr () \<and> (\<exists>ev. ?ev = [] @ ev \<and> st2 = ?ev @ ev \<and> ?C ev)"
    by (rule install_flow_idempotent [OF h run1 run2])
  from R have r2: "r2 = Inr ()" by (rule conjunct1)
  from R have "\<exists>ev. ?ev = [] @ ev \<and> st2 = ?ev @ ev \<and> ?C ev" by (rule conjunct2)
  then obtain ev where E: "?ev = [] @ ev \<and> st2 = ?ev @ ev \<and> ?C ev" ..
  from E have ev: "ev = ?ev" by simp
  from E have st2: "st2 = ?ev @ ev" by (rule conjunct1 [OF conjunct2])
  from E have "?C ev" by (rule conjunct2 [OF conjunct2])
  from this [rule_format, OF complete]
  have each: "\<forall>i < length ?P. rules_on (?P ! i) ev = 2" by (rule conjunct2)
  from each [rule_format, of 0] have c1: "rules_on 1 ev = 2" by simp
  from each [rule_format, of 1] have c2: "rules_on 2 ev = 2" by simp
  from each [rule_format, of 2] have c3: "rules_on 3 ev = 2" by simp
  from each [rule_format, of 3] have c4: "rules_on 4 ev = 2" by simp
  from run2 r2 st2 ev
  have run2': "install_flow ex_datapaths ex_link_to_port ex_access_table_rev (Some ?P)
            (2048, ''10.0.0.1'', ''10.0.0.4'', 1) 7 None ?ev = (Inr (), ?ev @ ?ev)"
    by simp
  have ne: "?ev \<noteq> []" by simp
  show ?thesis
    by (rule exI [of _ ?ev]) (intro conjI run1 run2' c1 [unfolded ev] c2 [unfolded ev]
          c3 [unfolded ev] c4 [unfolded ev] ne)
qed

text \<open>
  C9 as stated fails for equal contents in another iteration order: with the address 10.0.0.4
  recorded under two access points, \<^verbatim>\<open>get_port\<close> returns the port of the first one met, and
  the rules of the last switch differ (output port 9 or 8).
\<close>

theorem install_flow_idempotent_counterexample:
  "set ex_table_moved_a = set ex_table_moved_b
   \<and> map_of ex_table_moved_a = map_of ex_table_moved_b
   \<and> get_port ''10.0.0.4'' ex_table_moved_a = Some 9
   \<and> get_port ''10.0.0.4'' ex_table_moved_b = Some 8
   \<and> install_flow ex_datapaths ex_link_to_port ex_table_moved_a (Some [1, 2, 3, 4])
         ex_flow_info 7 None []
       \<noteq> install_flow ex_datapaths ex_link_to_port ex_table_moved_b (Some [1, 2, 3, 4])
           ex_flow_info 7 None []"
proof (intro conjI)
  show "set ex_table_moved_a = set ex_table_moved_b"
    by (auto simp: ex_table_moved_a_def ex_table_moved_b_def)
  show "map_of ex_table_moved_a = map_of ex_table_moved_b"
    by (rule ext) (simp add: ex_table_moved_a_def ex_table_moved_b_def)
  show "get_port ''10.0.0.4'' ex_table_moved_a = Some 9"
    by (simp add: ex_table_moved_a_def)
  show "get_port ''10.0.0.4'' ex_table_moved_b = Some 8"
    by (simp add: ex_table_moved_b_def)
  show "install_flow ex_datapaths ex_link_to_port ex_table_moved_a (Some [1, 2, 3, 4])
         ex_flow_info 7 None []
       \<noteq> install_flow ex_datapaths ex_link_to_port ex_table_moved_b (Some [1, 2, 3, 4])
           ex_flow_info 7 None []"
    by (simp add: ex_ofproto_def ex_dp_def ex_datapaths_def ex_link_to_port_def ex_flow_info_def
          ex_table_moved_a_def ex_table_moved_b_def install_flow_def
          get_port_pair_from_link_app send_flow_mod_app send_packet_out_app upt_rec Let_def
          packet_out_events_def build_packet_out_def flow_rule_def)
qed

section \<open>Address resolution\<close>

lemma build_directive_eq:
  "OFP_NO_BUFFER (ofproto dp) = OFP_NO_BUFFER (ofproto (msg_datapath msg)) \<Longrightarrow> p \<noteq> 0 \<Longrightarrow>
   build_packet_out dp (OFP_NO_BUFFER (ofproto (msg_datapath msg)))
       (OFPP_CONTROLLER (ofproto (msg_datapath msg))) p (Some payload)
   = Some (OFPPacketOut (OFP_NO_BUFFER (ofproto (msg_datapath msg))) (Some payload)
                (OFPP_CONTROLLER (ofproto (msg_datapath msg))) [OFPActionOutput p])"
  by (simp add: build_packet_out_def)


lemma flood_ports_known:
  assumes "msg_data msg = Some payload"
    and "\<forall>p \<in> set ports. map_of (access_table (awareness self)) (d, p) = None \<longrightarrow>
           p \<noteq> 0 \<and> (\<exists>dp. datapaths self d = Some dp
                   \<and> OFP_NO_BUFFER (ofproto dp) = OFP_NO_BUFFER (ofproto (msg_datapath msg)))"
  shows "flood_ports self msg d ports st =
           (Inr (), st @ map (\<lambda>p. directive msg (the (datapaths self d)) payload p)
                            (filter (\<lambda>p. map_of (access_table (awareness self)) (d, p) = None) ports))"
  using assms(2)
proof (induction ports arbitrary: st)
  case Nil
  show ?case by simp
next
  case (Cons p ports)
  have rest: "\<forall>p \<in> set ports. map_of (access_table (awareness self)) (d, p) = None \<longrightarrow>
           p \<noteq> 0 \<and> (\<exists>dp. datapaths self d = Some dp
                   \<and> OFP_NO_BUFFER (ofproto dp) = OFP_NO_BUFFER (ofproto (msg_datapath msg)))"
    using Cons.prems by simp
  show ?case
  proof (cases "map_of (access_table (awareness self)) (d, p) = None")
    case True
    with Cons.prems obtain dp where dp: "p \<noteq> 0" "datapaths self d = Some dp"
      "OFP_NO_BUFFER (ofproto dp) = OFP_NO_BUFFER (ofproto (msg_datapath msg))"
      by auto
    note ih = Cons.IH [OF rest]
    show ?thesis
      using True dp assms(1)
      by (simp add: build_directive_eq send_msg_def directive_def ih)
  next
    case False
    then show ?thesis by (auto simp: Cons.IH [OF rest])
  qed
qed







section \<open>Unregistered switches\<close>

lemma flood_ports_none:
  "datapaths self d = None \<Longrightarrow>
   flood_ports self msg d ports st =
     (if filter (\<lambda>p. map_of (access_table (awareness self)) (d, p) = None) ports = []
      then (Inr (), st) else (Inl KeyError, st))"
  by (induction ports arbitrary: st) auto

lemma takeWhile_same_switch:
  "takeWhile (\<lambda>(d, p). datapaths self d \<noteq> None) (map (Pair d) F @ ys) =
     (if datapaths self d \<noteq> None
      then map (Pair d) F @ takeWhile (\<lambda>(d, p). datapaths self d \<noteq> None) ys
      else if F = [] then takeWhile (\<lambda>(d, p). datapaths self d \<noteq> None) ys else [])"
proof (cases "datapaths self d = None")
  case True
  then show ?thesis by (cases F) simp_all
next
  case False
  then have "\<And>x. x \<in> set (map (Pair d) F) \<Longrightarrow> (case x of (d, p) \<Rightarrow> datapaths self d \<noteq> None)"
    by auto
  from takeWhile_append2 [of "map (Pair d) F" "\<lambda>(d, p). datapaths self d \<noteq> None" ys, OF this]
  show ?thesis using False by simp
qed

lemma unknown_in_simps:
  "unknown_in aw [] = []"
  "unknown_in aw ((d, ports) # aps) =
     map (Pair d) (filter (\<lambda>p. map_of (access_table aw) (d, p) = None) ports) @ unknown_in aw aps"
  by (simp_all add: unknown_in_def)

lemma unknown_access_points_in: "unknown_access_points aw = unknown_in aw (access_ports aw)"
  by (simp add: unknown_access_points_def unknown_in_def)

lemma flood_switches_exact:
  assumes data: "msg_data msg = Some payload"
    and ok: "\<forall>(d, p) \<in> set (unknown_in (awareness self) aps).
           p \<noteq> 0 \<and> (\<forall>dp. datapaths self d = Some dp
                   \<longrightarrow> OFP_NO_BUFFER (ofproto dp) = OFP_NO_BUFFER (ofproto (msg_datapath msg)))"
  shows "flood_switches self msg aps st =
           ((if \<forall>(d, p) \<in> set (unknown_in (awareness self) aps). datapaths self d \<noteq> None
             then Inr () else Inl KeyError),
            st @ map (\<lambda>(d, p). directive msg (the (datapaths self d)) payload p)
              (takeWhile (\<lambda>(d, p). datapaths self d \<noteq> None) (unknown_in (awareness self) aps)))"
  using ok
proof (induction aps arbitrary: st)
  case Nil
  show ?case by (simp add: unknown_in_simps)
next
  case (Cons a aps)
  obtain d ports where a: "a = (d, ports)" by (cases a)
  let ?unknown = "\<lambda>p. map_of (access_table (awareness self)) (d, p) = None"
  let ?F = "filter ?unknown ports"
  let ?U = "unknown_in (awareness self) aps"
  let ?P = "\<lambda>(d, p). datapaths self d \<noteq> None"
  let ?D = "\<lambda>(d, p). directive msg (the (datapaths self d)) payload p"
  have U: "unknown_in (awareness self) (a # aps) = map (Pair d) ?F @ ?U"
    unfolding a by (simp add: unknown_in_simps)
  have rest: "\<forall>(d, p) \<in> set ?U.
           p \<noteq> 0 \<and> (\<forall>dp. datapaths self d = Some dp
                   \<longrightarrow> OFP_NO_BUFFER (ofproto dp) = OFP_NO_BUFFER (ofproto (msg_datapath msg)))"
    using Cons.prems unfolding U by simp
  note ih = Cons.IH [OF rest]
  show ?case
  proof (cases "datapaths self d")
    case None
    show ?thesis
    proof (cases "?F = []")
      case True
      have l: "flood_ports self msg d ports st = (Inr (), st)"
        using None True by (simp add: flood_ports_none)
      have "flood_switches self msg (a # aps) st = flood_switches self msg aps st"
        unfolding a by (simp add: l)
      then show ?thesis unfolding U using True by (simp add: ih)
    next
      case False
      then obtain p rest where F: "?F = p # rest" by (cases ?F) auto
      have l: "flood_ports self msg d ports st = (Inl KeyError, st)"
        using None False by (simp add: flood_ports_none)
      have run: "flood_switches self msg (a # aps) st = (Inl KeyError, st)"
        unfolding a by (simp add: l)
      have t: "takeWhile ?P (map (Pair d) ?F @ ?U) = []"
        unfolding F using None by simp
      have c: "\<not> (\<forall>x \<in> set (map (Pair d) ?F @ ?U). ?P x)"
        unfolding F using None by simp
      show ?thesis unfolding U run t using c by simp
    qed
  next
    case (Some dp)
    have "\<forall>p \<in> set ports. ?unknown p \<longrightarrow>
           p \<noteq> 0 \<and> (\<exists>dp. datapaths self d = Some dp
                   \<and> OFP_NO_BUFFER (ofproto dp) = OFP_NO_BUFFER (ofproto (msg_datapath msg)))"
    proof (intro ballI impI)
      fix p assume "p \<in> set ports" "?unknown p"
      then have "(d, p) \<in> set (map (Pair d) ?F @ ?U)" by simp
      from bspec [OF Cons.prems [unfolded U] this]
      have "p \<noteq> 0 \<and> (\<forall>dp. datapaths self d = Some dp
                   \<longrightarrow> OFP_NO_BUFFER (ofproto dp) = OFP_NO_BUFFER (ofproto (msg_datapath msg)))"
        by simp
      with Some show "p \<noteq> 0 \<and> (\<exists>dp. datapaths self d = Some dp
                   \<and> OFP_NO_BUFFER (ofproto dp) = OFP_NO_BUFFER (ofproto (msg_datapath msg)))"
        by simp
    qed
    note hd = flood_ports_known [OF data this]
    have run: "flood_switches self msg (a # aps) st =
                 ((if \<forall>x \<in> set ?U. ?P x then Inr () else Inl KeyError),
                  (st @ map (\<lambda>p. directive msg (the (datapaths self d)) payload p) ?F)
                  @ map ?D (takeWhile ?P ?U))"
      unfolding a by (simp add: hd ih)
    have front: "\<And>x. x \<in> set (map (Pair d) ?F) \<Longrightarrow> ?P x"
      using Some by auto
    have t: "takeWhile ?P (map (Pair d) ?F @ ?U) = map (Pair d) ?F @ takeWhile ?P ?U"
      by (rule takeWhile_append2) (rule front)
    have c: "(\<forall>x \<in> set (map (Pair d) ?F @ ?U). ?P x) = (\<forall>x \<in> set ?U. ?P x)"
      unfolding set_append ball_Un using front by blast
    have m: "map ?D (map (Pair d) ?F) = map (\<lambda>p. directive msg (the (datapaths self d)) payload p) ?F"
      by (simp add: comp_def)
    show ?thesis unfolding U run t c by (simp add: m)
  qed
qed

lemma flood_unregistered:
  "msg_data msg = Some payload
   \<and> (\<forall>(d, p) \<in> set (unknown_access_points (awareness self)).
         p \<noteq> 0 \<and> (\<forall>dp. datapaths self d = Some dp
                 \<longrightarrow> OFP_NO_BUFFER (ofproto dp) = OFP_NO_BUFFER (ofproto (msg_datapath msg))))
   \<and> (\<exists>(d, p) \<in> set (unknown_access_points (awareness self)). datapaths self d = None)
   \<longrightarrow> flood self msg st =
         (Inl KeyError,
          st @ map (\<lambda>(d, p). directive msg (the (datapaths self d)) payload p)
                 (takeWhile (\<lambda>(d, p). datapaths self d \<noteq> None)
                    (unknown_access_points (awareness self))))"
proof (intro impI, elim conjE)
  assume data: "msg_data msg = Some payload"
    and ok: "\<forall>(d, p) \<in> set (unknown_access_points (awareness self)).
         p \<noteq> 0 \<and> (\<forall>dp. datapaths self d = Some dp
                 \<longrightarrow> OFP_NO_BUFFER (ofproto dp) = OFP_NO_BUFFER (ofproto (msg_datapath msg)))"
    and ex: "\<exists>(d, p) \<in> set (unknown_access_points (awareness self)). datapaths self d = None"
  from ex have nall: "\<not> (\<forall>(d, p) \<in> set (unknown_in (awareness self) (access_ports (awareness self))).
                        datapaths self d \<noteq> None)"
    unfolding unknown_access_points_in by fastforce
  from flood_switches_exact [OF data ok [unfolded unknown_access_points_in], of st]
  have "flood_switches self msg (access_ports (awareness self)) st =
         (Inl KeyError,
          st @ map (\<lambda>(d, p). directive msg (the (datapaths self d)) payload p)
                 (takeWhile (\<lambda>(d, p). datapaths self d \<noteq> None)
                    (unknown_in (awareness self) (access_ports (awareness self)))))"
    using nall by (simp only: if_False)
  then show "flood self msg st =
         (Inl KeyError,
          st @ map (\<lambda>(d, p). directive msg (the (datapaths self d)) payload p)
                 (takeWhile (\<lambda>(d, p). datapaths self d \<noteq> None)
                    (unknown_access_points (awareness self))))"
    unfolding unknown_access_points_in by (simp add: flood_def)
qed

lemma inter_link_append:
  "inter_link dps l2p path fi bi (xs @ ys) st =
     (case inter_link dps l2p path fi bi xs st of
        (Inl e, s) \<Rightarrow> (Inl e, s)
      | (Inr u, s) \<Rightarrow> inter_link dps l2p path fi bi ys s)"
  by (induction xs arbitrary: st)
     (auto simp: get_port_pair_from_link_def Let_def split: option.splits prod.splits sum.splits)

lemma upt_split_at:
  "a \<le> k \<Longrightarrow> k < b \<Longrightarrow> [a ..< b] = [a ..< k] @ k # [Suc k ..< b]"
  by (metis upt_add_eq_append upt_conv_Cons le_Suc_ex less_imp_le_nat)

lemma install_flow_interior_unregistered:
  "0 < k \<and> Suc k < length path \<and> distinct path
   \<and> (\<forall>i < k. \<exists>dp. dps (path ! i) = Some dp \<and> dp_id dp = path ! i)
   \<and> l2p (path ! (k - 1), path ! k) \<noteq> None \<and> l2p (path ! k, path ! Suc k) \<noteq> None
   \<and> dps (path ! k) = None
   \<longrightarrow> (\<exists>ev. install_flow dps l2p acc (Some path) (eth_type, ip_src, ip_dst, in_port)
                 buffer_id data st = (Inl KeyError, st @ ev)
           \<and> (\<forall>i < length path. rules_on (path ! i) ev =
                  (if 0 < i \<and> i < k \<and> l2p (path ! (i - 1), path ! i) \<noteq> None
                      \<and> l2p (path ! i, path ! Suc i) \<noteq> None then 2 else 0))
           \<and> filter is_packet_out ev = [])"
proof (intro impI, elim conjE)
  let ?n = "length path"
  let ?fi = "(eth_type, ip_src, ip_dst)" and ?bi = "(eth_type, ip_dst, ip_src)"
  let ?linked = "\<lambda>i. l2p (path ! (i - 1), path ! i) \<noteq> None \<and> l2p (path ! i, path ! (i + 1)) \<noteq> None"
  assume k: "0 < k" "Suc k < ?n" and dist: "distinct path"
    and reg: "\<forall>i < k. \<exists>dp. dps (path ! i) = Some dp \<and> dp_id dp = path ! i"
    and lk: "l2p (path ! (k - 1), path ! k) \<noteq> None" "l2p (path ! k, path ! Suc k) \<noteq> None"
    and nok: "dps (path ! k) = None"
  have len: "2 < ?n" and ne: "path \<noteq> []" using k by auto
  from reg k obtain first_dp where fdp: "dps (path ! 0) = Some first_dp" by blast
  have "\<forall>i \<in> set [1 ..< k]. \<exists>dp. dps (path ! i) = Some dp \<and> dp_id dp = path ! i"
    using reg by simp
  from inter_link_rules [OF this, of l2p ?fi ?bi]
  obtain ev1 where pre: "\<And>st. inter_link dps l2p path ?fi ?bi [1 ..< k] st = (Inr (), st @ ev1)"
    and on1: "\<And>s. rules_on s ev1 = 2 * length (filter (\<lambda>i. path ! i = s \<and> ?linked i) [1 ..< k])"
    and po1: "filter is_packet_out ev1 = []"
    by blast
  from lk obtain p pn where l: "l2p (path ! (k - 1), path ! k) = Some p"
    "l2p (path ! k, path ! (k + 1)) = Some pn" by auto
  have stop: "\<And>post st. inter_link dps l2p path ?fi ?bi (k # post) st = (Inl KeyError, st)"
    using l nok by (simp add: get_port_pair_from_link_app)
  have split: "[1 ..< ?n - 1] = [1 ..< k] @ k # [Suc k ..< ?n - 1]"
    using k by (intro upt_split_at) auto
  have loop: "inter_link dps l2p path ?fi ?bi [1 ..< ?n - 1] st = (Inl KeyError, st @ ev1)"
    unfolding split by (simp only: inter_link_append pre stop prod.case sum.case)
  have run: "install_flow dps l2p acc (Some path) (eth_type, ip_src, ip_dst, in_port)
                 buffer_id data st = (Inl KeyError, st @ ev1)"
    using len ne fdp by (simp add: install_flow_def Let_def loop [unfolded One_nat_def])
  have cnt: "\<forall>i < ?n. rules_on (path ! i) ev1 =
                  (if 0 < i \<and> i < k \<and> l2p (path ! (i - 1), path ! i) \<noteq> None
                      \<and> l2p (path ! i, path ! Suc i) \<noteq> None then 2 else 0)"
  proof (intro allI impI)
    fix i assume i: "i < ?n"
    have "k \<le> ?n" using k by simp
    from interior_count [OF dist i this, of ?linked 1]
    show "rules_on (path ! i) ev1 =
                  (if 0 < i \<and> i < k \<and> l2p (path ! (i - 1), path ! i) \<noteq> None
                      \<and> l2p (path ! i, path ! Suc i) \<noteq> None then 2 else 0)"
      unfolding on1 by auto
  qed
  show "\<exists>ev. install_flow dps l2p acc (Some path) (eth_type, ip_src, ip_dst, in_port)
                 buffer_id data st = (Inl KeyError, st @ ev)
           \<and> (\<forall>i < length path. rules_on (path ! i) ev =
                  (if 0 < i \<and> i < k \<and> l2p (path ! (i - 1), path ! i) \<noteq> None
                      \<and> l2p (path ! i, path ! Suc i) \<noteq> None then 2 else 0))
           \<and> filter is_packet_out ev = []"
    by (rule exI [of _ ev1]) (intro conjI run cnt po1)
qed

lemma install_flow_last_unregistered:
  "2 \<le> length path \<and> distinct path
   \<and> (\<forall>i < length path - 1. \<exists>dp. dps (path ! i) = Some dp \<and> dp_id dp = path ! i)
   \<and> l2p (path ! (length path - 2), path ! (length path - 1)) \<noteq> None
   \<and> get_port ip_dst acc \<noteq> None
   \<and> dps (path ! (length path - 1)) = None
   \<longrightarrow> (\<exists>ev. install_flow dps l2p acc (Some path) (eth_type, ip_src, ip_dst, in_port)
                 buffer_id data st = (Inl KeyError, st @ ev)
           \<and> (\<forall>i < length path. rules_on (path ! i) ev =
                  (if 0 < i \<and> i < length path - 1 \<and> l2p (path ! (i - 1), path ! i) \<noteq> None
                      \<and> l2p (path ! i, path ! Suc i) \<noteq> None then 2 else 0))
           \<and> filter is_packet_out ev = [])"
proof (intro impI, elim conjE)
  let ?n = "length path"
  let ?fi = "(eth_type, ip_src, ip_dst)" and ?bi = "(eth_type, ip_dst, ip_src)"
  let ?linked = "\<lambda>i. l2p (path ! (i - 1), path ! i) \<noteq> None \<and> l2p (path ! i, path ! (i + 1)) \<noteq> None"
  assume len: "2 \<le> ?n" and dist: "distinct path"
    and reg: "\<forall>i < ?n - 1. \<exists>dp. dps (path ! i) = Some dp \<and> dp_id dp = path ! i"
    and ll: "l2p (path ! (?n - 2), path ! (?n - 1)) \<noteq> None"
    and port: "get_port ip_dst acc \<noteq> None"
    and nok: "dps (path ! (?n - 1)) = None"
  have ne: "path \<noteq> []" and inb: "0 < ?n - 1" "Suc 0 < ?n" using len by auto
  from reg inb obtain first_dp where fdp: "dps (path ! 0) = Some first_dp" by blast
  have "\<forall>i \<in> set [1 ..< ?n - 1]. \<exists>dp. dps (path ! i) = Some dp \<and> dp_id dp = path ! i"
    using reg by simp
  from inter_link_rules [OF this, of l2p ?fi ?bi]
  obtain ev1 where loop: "\<And>st. inter_link dps l2p path ?fi ?bi [1 ..< ?n - 1] st = (Inr (), st @ ev1)"
    and on1: "\<And>s. rules_on s ev1 = 2 * length (filter (\<lambda>i. path ! i = s \<and> ?linked i) [1 ..< ?n - 1])"
    and po1: "filter is_packet_out ev1 = []"
    by blast
  have loop': "(if 2 < ?n then inter_link dps l2p path ?fi ?bi [1 ..< ?n - 1] st
                else (Inr (), st)) = (Inr (), st @ ev1)"
  proof (cases "2 < ?n")
    case True
    then show ?thesis using loop [of st] by simp
  next
    case False
    with len have "?n = 2" by simp
    then show ?thesis using loop [of st] by simp
  qed
  from ll obtain pl where pl: "l2p (path ! (?n - 2), path ! (?n - 1)) = Some pl" by auto
  from port obtain dst_port where dp: "get_port ip_dst acc = Some dst_port" by auto
  have run: "install_flow dps l2p acc (Some path) (eth_type, ip_src, ip_dst, in_port)
                 buffer_id data st = (Inl KeyError, st @ ev1)"
    using ne inb fdp pl dp nok
    by (simp add: install_flow_def Let_def loop' get_port_pair_from_link_app)
  have cnt: "\<forall>i < ?n. rules_on (path ! i) ev1 =
                  (if 0 < i \<and> i < ?n - 1 \<and> l2p (path ! (i - 1), path ! i) \<noteq> None
                      \<and> l2p (path ! i, path ! Suc i) \<noteq> None then 2 else 0)"
  proof (intro allI impI)
    fix i assume i: "i < ?n"
    have "?n - 1 \<le> ?n" by simp
    from interior_count [OF dist i this, of ?linked 1]
    show "rules_on (path ! i) ev1 =
                  (if 0 < i \<and> i < ?n - 1 \<and> l2p (path ! (i - 1), path ! i) \<noteq> None
                      \<and> l2p (path ! i, path ! Suc i) \<noteq> None then 2 else 0)"
      unfolding on1 by auto
  qed
  show "\<exists>ev. install_flow dps l2p acc (Some path) (eth_type, ip_src, ip_dst, in_port)
                 buffer_id data st = (Inl KeyError, st @ ev)
           \<and> (\<forall>i < length path. rules_on (path ! i) ev =
                  (if 0 < i \<and> i < length path - 1 \<and> l2p (path ! (i - 1), path ! i) \<noteq> None
                      \<and> l2p (path ! i, path ! Suc i) \<noteq> None then 2 else 0))
           \<and> filter is_packet_out ev = []"
    by (rule exI [of _ ev1]) (intro conjI run cnt po1)
qed

lemma arp_forwarding_unregistered:
  "get_host_location (awareness self) dst_ip = Some (s, p) \<and> datapaths self s = None
   \<longrightarrow> arp_forwarding self msg src_ip dst_ip st = (Inl KeyError, st)"
  by (simp add: arp_forwarding_def)

lemma install_flow_first_unregistered:
  "path \<noteq> [] \<and> dps (path ! 0) = None
   \<longrightarrow> install_flow dps l2p acc (Some path) flow_info buffer_id data st = (Inl KeyError, st)"
  by (simp add: install_flow_def split: prod.splits)

text \<open>
  C6 (as amended): a submission whose target switch is absent from the registry is not
  dropped silently: the lookup \<^verbatim>\<open>self.datapaths[dpid]\<close> raises KeyError, which ends the
  handling there; what was submitted before stays and nothing is submitted after.
  \<^item> \<^verbatim>\<open>arp_forwarding\<close> for a known host on an unregistered switch ends with KeyError and
    submits nothing.
  \<^item> \<^verbatim>\<open>flood\<close> ends with KeyError at the first unknown access port of an unregistered
    switch: the directives for the unknown access ports before it have been sent, those for
    the later ports and switches are not.
  \<^item> \<^verbatim>\<open>install_flow\<close> ends with KeyError and submits nothing when the first switch of the
    path is unregistered; when an interior switch with both its links present is
    unregistered, the interior switches before it have their 2 rules (where their links are
    present) and no other rule or packet-out is submitted; when the last switch is
    unregistered, with the last link present and the access port resolved, the interior
    switches have their rules and no rule of the last or the first switch and no packet-out
    is submitted.
\<close>

theorem unregistered_switch_raises:
  "(get_host_location (awareness self) dst_ip = Some (s, p) \<and> datapaths self s = None
      \<longrightarrow> arp_forwarding self msg src_ip dst_ip st = (Inl KeyError, st))
   \<and> (msg_data msg = Some payload
       \<and> (\<forall>(d, p) \<in> set (unknown_access_points (awareness self)).
             p \<noteq> 0 \<and> (\<forall>dp. datapaths self d = Some dp
                     \<longrightarrow> OFP_NO_BUFFER (ofproto dp) = OFP_NO_BUFFER (ofproto (msg_datapath msg))))
       \<and> (\<exists>(d, p) \<in> set (unknown_access_points (awareness self)). datapaths self d = None)
      \<longrightarrow> flood self msg st =
            (Inl KeyError,
             st @ map (\<lambda>(d, p). directive msg (the (datapaths self d)) payload p)
                    (takeWhile (\<lambda>(d, p). datapaths self d \<noteq> None)
                       (unknown_access_points (awareness self)))))
   \<and> (path \<noteq> [] \<and> dps (path ! 0) = None
      \<longrightarrow> install_flow dps l2p acc (Some path) flow_info buffer_id data st = (Inl KeyError, st))
   \<and> (0 < k \<and> Suc k < length path \<and> distinct path
       \<and> (\<forall>i < k. \<exists>dp. dps (path ! i) = Some dp \<and> dp_id dp = path ! i)
       \<and> l2p (path ! (k - 1), path ! k) \<noteq> None \<and> l2p (path ! k, path ! Suc k) \<noteq> None
       \<and> dps (path ! k) = None
      \<longrightarrow> (\<exists>ev. install_flow dps l2p acc (Some path) (eth_type, ip_src, ip_dst, in_port)
                    buffer_id data st = (Inl KeyError, st @ ev)
              \<and> (\<forall>i < length path. rules_on (path ! i) ev =
                     (if 0 < i \<and> i < k \<and> l2p (path ! (i - 1), path ! i) \<noteq> None
                         \<and> l2p (path ! i, path ! Suc i) \<noteq> None then 2 else 0))
              \<and> filter is_packet_out ev = []))
   \<and> (2 \<le> length path \<and> distinct path
       \<and> (\<forall>i < length path - 1. \<exists>dp. dps (path ! i) = Some dp \<and> dp_id dp = path ! i)
       \<and> l2p (path ! (length path - 2), path ! (length path - 1)) \<noteq> None
       \<and> get_port ip_dst acc \<noteq> None
       \<and> dps (path ! (length path - 1)) = None
      \<longrightarrow> (\<exists>ev. install_flow dps l2p acc (Some path) (eth_type, ip_src, ip_dst, in_port)
                    buffer_id data st = (Inl KeyError, st @ ev)
              \<and> (\<forall>i < length path. rules_on (path ! i) ev =
                     (if 0 < i \<and> i < length path - 1 \<and> l2p (path ! (i - 1), path ! i) \<noteq> None
                         \<and> l2p (path ! i, path ! Suc i) \<noteq> None then 2 else 0))
              \<and> filter is_packet_out ev = []))"
  by (intro conjI arp_forwarding_unregistered flood_unregistered install_flow_first_unregistered
        install_flow_interior_unregistered install_flow_last_unregistered)

theorem unregistered_switch_raises_witness:
  "arp_forwarding ex_unregistered_app ex7_msg ''10.0.0.9'' ''10.0.0.1'' [] = (Inl KeyError, [])
   \<and> flood ex_unregistered_late_app ex7_msg [] =
       (Inl KeyError,
        [Send (ex_dp 8) (OFPPacketOut 4294967295 (Some ''arp'') 4294967293 [OFPActionOutput 5])])
   \<and> install_flow (datapaths ex_unregistered_app) Map.empty ex7_table_one (Some [7])
         (2048, ''10.0.0.9'', ''10.0.0.1'', 2) 7 None [] = (Inl KeyError, [])
   \<and> (\<exists>ev. install_flow ex_datapaths_no3 ex_link_to_port ex_access_table (Some [1, 2, 3, 4])
              (2048, ''10.0.0.1'', ''10.0.0.4'', 1) 7 None [] = (Inl KeyError, ev)
           \<and> rules_on 1 ev = 0 \<and> rules_on 2 ev = 2 \<and> rules_on 3 ev = 0 \<and> rules_on 4 ev = 0
           \<and> filter is_packet_out ev = [])
   \<and> (\<exists>ev. install_flow ex_datapaths_no4 ex_link_to_port ex_access_table (Some [1, 2, 3, 4])
              (2048, ''10.0.0.1'', ''10.0.0.4'', 1) 7 None [] = (Inl KeyError, ev)
           \<and> rules_on 1 ev = 0 \<and> rules_on 2 ev = 2 \<and> rules_on 3 ev = 2 \<and> rules_on 4 ev = 0
           \<and> filter is_packet_out ev = [])"
proof -
  have a: "arp_forwarding ex_unregistered_app ex7_msg ''10.0.0.9'' ''10.0.0.1'' [] = (Inl KeyError, [])"
  proof -
    have "get_host_location (awareness ex_unregistered_app) ''10.0.0.1'' = Some (7, 1)
          \<and> datapaths ex_unregistered_app 7 = None"
      by (simp add: ex_unregistered_app_def ex7_table_one_def)
    with unregistered_switch_raises
           [where self = ex_unregistered_app and dst_ip = "''10.0.0.1''" and s = 7 and p = 1
              and msg = ex7_msg and src_ip = "''10.0.0.9''" and st = "[]", THEN conjunct1]
    show ?thesis by (rule mp)
  qed
  have b: "flood ex_unregistered_late_app ex7_msg [] =
       (Inl KeyError,
        [Send (ex_dp 8) (OFPPacketOut 4294967295 (Some ''arp'') 4294967293 [OFPActionOutput 5])])"
  proof -
    have u: "unknown_access_points (awareness ex_unregistered_late_app) = [(8, 5), (7, 2), (7, 3)]"
      by (simp add: unknown_access_points_def ex_unregistered_late_app_def ex7_table_one_def)
    have "msg_data ex7_msg = Some ''arp''
       \<and> (\<forall>(d, p) \<in> set (unknown_access_points (awareness ex_unregistered_late_app)).
             p \<noteq> 0 \<and> (\<forall>dp. datapaths ex_unregistered_late_app d = Some dp
                     \<longrightarrow> OFP_NO_BUFFER (ofproto dp) = OFP_NO_BUFFER (ofproto (msg_datapath ex7_msg))))
       \<and> (\<exists>(d, p) \<in> set (unknown_access_points (awareness ex_unregistered_late_app)).
             datapaths ex_unregistered_late_app d = None)"
      unfolding u by (simp add: ex_unregistered_late_app_def ex7_msg_def ex_dp_def)
    with unregistered_switch_raises
           [where self = ex_unregistered_late_app and msg = ex7_msg and payload = "''arp''"
              and st = "[]", THEN conjunct2, THEN conjunct1]
    have "flood ex_unregistered_late_app ex7_msg [] =
            (Inl KeyError,
             [] @ map (\<lambda>(d, p). directive ex7_msg (the (datapaths ex_unregistered_late_app d)) ''arp'' p)
                    (takeWhile (\<lambda>(d, p). datapaths ex_unregistered_late_app d \<noteq> None)
                       (unknown_access_points (awareness ex_unregistered_late_app))))"
      by (rule mp)
    then show ?thesis
      unfolding u
      by (simp add: ex_unregistered_late_app_def directive_def ex7_msg_def ex_dp_def ex_ofproto_def)
  qed
  have c: "install_flow (datapaths ex_unregistered_app) Map.empty ex7_table_one (Some [7])
         (2048, ''10.0.0.9'', ''10.0.0.1'', 2) 7 None [] = (Inl KeyError, [])"
  proof -
    have "[7 :: int] \<noteq> [] \<and> datapaths ex_unregistered_app ([7] ! 0) = None"
      by (simp add: ex_unregistered_app_def)
    with unregistered_switch_raises
           [where path = "[7]" and dps = "datapaths ex_unregistered_app" and l2p = Map.empty
              and acc = ex7_table_one and flow_info = "(2048, ''10.0.0.9'', ''10.0.0.1'', 2)"
              and buffer_id = 7 and data = None and st = "[]",
            THEN conjunct2, THEN conjunct2, THEN conjunct1]
    show ?thesis by (rule mp)
  qed
  have two: "\<And>P. (\<forall>i < (2 :: nat). P i) = (P 0 \<and> P 1)"
    by (auto simp: less_Suc_eq numeral_2_eq_2)
  have d: "\<exists>ev. install_flow ex_datapaths_no3 ex_link_to_port ex_access_table (Some [1, 2, 3, 4])
              (2048, ''10.0.0.1'', ''10.0.0.4'', 1) 7 None [] = (Inl KeyError, ev)
           \<and> rules_on 1 ev = 0 \<and> rules_on 2 ev = 2 \<and> rules_on 3 ev = 0 \<and> rules_on 4 ev = 0
           \<and> filter is_packet_out ev = []"
  proof -
    have "0 < (2 :: nat) \<and> Suc 2 < length [1, 2, 3, 4 :: int] \<and> distinct [1, 2, 3, 4 :: int]
       \<and> (\<forall>i < 2. \<exists>dp. ex_datapaths_no3 ([1, 2, 3, 4] ! i) = Some dp \<and> dp_id dp = [1, 2, 3, 4] ! i)
       \<and> ex_link_to_port ([1, 2, 3, 4] ! (2 - 1), [1, 2, 3, 4] ! 2) \<noteq> None
       \<and> ex_link_to_port ([1, 2, 3, 4] ! 2, [1, 2, 3, 4] ! Suc 2) \<noteq> None
       \<and> ex_datapaths_no3 ([1, 2, 3, 4] ! 2) = None"
      by (simp add: two ex_datapaths_no3_def ex_dp_def ex_link_to_port_def)
    with unregistered_switch_raises
           [where k = 2 and path = "[1, 2, 3, 4]" and dps = ex_datapaths_no3
              and l2p = ex_link_to_port and acc = ex_access_table and eth_type = 2048
              and ip_src = "''10.0.0.1''" and ip_dst = "''10.0.0.4''" and in_port = 1
              and buffer_id = 7 and data = None and st = "[]",
            THEN conjunct2, THEN conjunct2, THEN conjunct2, THEN conjunct1]
    have "\<exists>ev. install_flow ex_datapaths_no3 ex_link_to_port ex_access_table (Some [1, 2, 3, 4])
                    (2048, ''10.0.0.1'', ''10.0.0.4'', 1) 7 None [] = (Inl KeyError, [] @ ev)
              \<and> (\<forall>i < length [1, 2, 3, 4 :: int]. rules_on ([1, 2, 3, 4] ! i) ev =
                     (if 0 < i \<and> i < 2
                         \<and> ex_link_to_port ([1, 2, 3, 4] ! (i - 1), [1, 2, 3, 4] ! i) \<noteq> None
                         \<and> ex_link_to_port ([1, 2, 3, 4] ! i, [1, 2, 3, 4] ! Suc i) \<noteq> None
                      then 2 else 0))
              \<and> filter is_packet_out ev = []"
      by (rule mp)
    then show ?thesis
      apply (elim exE conjE)
      subgoal premises p for ev
        using p(1) p(2) [rule_format, of 0] p(2) [rule_format, of 1] p(2) [rule_format, of 2]
          p(2) [rule_format, of 3] p(3)
        by (intro exI [of _ ev]) (simp add: ex_link_to_port_def)
      done
  qed
  have e: "\<exists>ev. install_flow ex_datapaths_no4 ex_link_to_port ex_access_table (Some [1, 2, 3, 4])
              (2048, ''10.0.0.1'', ''10.0.0.4'', 1) 7 None [] = (Inl KeyError, ev)
           \<and> rules_on 1 ev = 0 \<and> rules_on 2 ev = 2 \<and> rules_on 3 ev = 2 \<and> rules_on 4 ev = 0
           \<and> filter is_packet_out ev = []"
  proof -
    have q: "\<forall>i < length [1, 2, 3, 4 :: int] - 1.
             \<exists>dp. ex_datapaths_no4 ([1, 2, 3, 4] ! i) = Some dp \<and> dp_id dp = [1, 2, 3, 4] ! i"
    proof (intro allI impI)
      fix i :: nat
      assume "i < length [1, 2, 3, 4 :: int] - 1"
      then have "i = 0 \<or> i = 1 \<or> i = 2" by auto
      then show "\<exists>dp. ex_datapaths_no4 ([1, 2, 3, 4] ! i) = Some dp \<and> dp_id dp = [1, 2, 3, 4] ! i"
        by (auto simp: ex_datapaths_no4_def ex_dp_def)
    qed
    have "2 \<le> length [1, 2, 3, 4 :: int] \<and> distinct [1, 2, 3, 4 :: int]
       \<and> (\<forall>i < length [1, 2, 3, 4 :: int] - 1.
             \<exists>dp. ex_datapaths_no4 ([1, 2, 3, 4] ! i) = Some dp \<and> dp_id dp = [1, 2, 3, 4] ! i)
       \<and> ex_link_to_port ([1, 2, 3, 4] ! (length [1, 2, 3, 4 :: int] - 2),
                           [1, 2, 3, 4] ! (length [1, 2, 3, 4 :: int] - 1)) \<noteq> None
       \<and> get_port ''10.0.0.4'' ex_access_table \<noteq> None
       \<and> ex_datapaths_no4 ([1, 2, 3, 4] ! (length [1, 2, 3, 4 :: int] - 1)) = None"
      by (intro conjI q) (simp_all add: ex_datapaths_no4_def ex_link_to_port_def ex_access_table_def)
    with unregistered_switch_raises
           [where path = "[1, 2, 3, 4]" and dps = ex_datapaths_no4
              and l2p = ex_link_to_port and acc = ex_access_table and eth_type = 2048
              and ip_src = "''10.0.0.1''" and ip_dst = "''10.0.0.4''" and in_port = 1
              and buffer_id = 7 and data = None and st = "[]",
            THEN conjunct2, THEN conjunct2, THEN conjunct2, THEN conjunct2]
    have "\<exists>ev. install_flow ex_datapaths_no4 ex_link_to_port ex_access_table (Some [1, 2, 3, 4])
                    (2048, ''10.0.0.1'', ''10.0.0.4'', 1) 7 None [] = (Inl KeyError, [] @ ev)
              \<and> (\<forall>i < length [1, 2, 3, 4 :: int]. rules_on ([1, 2, 3, 4] ! i) ev =
                     (if 0 < i \<and> i < length [1, 2, 3, 4 :: int] - 1
                         \<and> ex_link_to_port ([1, 2, 3, 4] ! (i - 1), [1, 2, 3, 4] ! i) \<noteq> None
                         \<and> ex_link_to_port ([1, 2, 3, 4] ! i, [1, 2, 3, 4] ! Suc i) \<noteq> None
                      then 2 else 0))
              \<and> filter is_packet_out ev = []"
      by (rule mp)
    then show ?thesis
      apply (elim exE conjE)
      subgoal premises p for ev
        using p(1) p(2) [rule_format, of 0] p(2) [rule_format, of 1] p(2) [rule_format, of 2]
          p(2) [rule_format, of 3] p(3)
        by (intro exI [of _ ev]) (simp add: ex_link_to_port_def)
      done
  qed
  from a b c d e show ?thesis by (intro conjI)
qed

text \<open>
  C6 as stated fails: with unknown access ports on switch 7 (unregistered) and on switch 8
  (registered), \<^verbatim>\<open>flood\<close> raises KeyError at switch 7 and the directive for port 5 of
  switch 8 is never sent.
\<close>

theorem unregistered_switch_counterexample:
  "datapaths ex_unregistered_app 7 = None
   \<and> datapaths ex_unregistered_app 8 = Some (ex_dp 8)
   \<and> unknown_access_points (awareness ex_unregistered_app) = [(7, 2), (7, 3), (8, 5)]
   \<and> flood ex_unregistered_app ex7_msg [] = (Inl KeyError, [])"
  by (simp add: unknown_access_points_def ex_unregistered_app_def ex7_table_one_def flood_def)

section \<open>Path lookup and switch resolution\<close>

text \<open>
  C4 (as amended): for a pair of switches without an entry in the shortest-path table,
  \<^verbatim>\<open>get_path\<close> fails with AttributeError when the source switch has no row and with
  TypeError when the row has no entry for the destination switch; \<^verbatim>\<open>shortest_forwarding\<close>
  does not catch the error and ends with it, having submitted nothing.
\<close>

theorem get_path_no_entry:
  "(shortest_paths (awareness self) src = None \<longrightarrow> get_path self src dst = Inl AttributeError)
   \<and> (\<forall>row. shortest_paths (awareness self) src = Some row \<and> row dst = None
          \<longrightarrow> get_path self src dst = Inl TypeError)
   \<and> (\<forall>src_sw dst_sw e.
          get_sw self (dp_id (msg_datapath msg)) (msg_in_port msg) ip_src ip_dst
            = Inr (Some (src_sw, Some dst_sw))
          \<and> dst_sw \<noteq> 0 \<and> get_path self src_sw dst_sw = Inl e
          \<longrightarrow> shortest_forwarding self msg eth_type ip_src ip_dst st = (Inl e, st))"
  by (simp add: get_path_def shortest_forwarding_def)

theorem get_path_no_entry_witness:
  "get_path (ex7_app ex7_table_two) 8 7 = Inl AttributeError
   \<and> get_path (ex7_app ex7_table_two) 7 8 = Inl TypeError
   \<and> shortest_forwarding ex_app ex_msg 2048 ''10.0.0.1'' ''10.0.0.4'' [] = (Inl AttributeError, [])"
proof -
  have h1: "shortest_paths (awareness (ex7_app ex7_table_two)) 8 = None"
    by (simp add: ex7_app_def ex7_awareness_def)
  have h2: "shortest_paths (awareness (ex7_app ex7_table_two)) 7 = Some [7 \<mapsto> [[7]]]
            \<and> [7 \<mapsto> [[7 :: int]]] (8 :: int) = None"
    by (simp add: ex7_app_def ex7_awareness_def)
  have h3: "get_sw ex_app (dp_id (msg_datapath ex_msg)) (msg_in_port ex_msg) ''10.0.0.1'' ''10.0.0.4''
              = Inr (Some (1, Some 4))"
    by (simp add: get_sw_def ex_app_def ex_awareness_def ex_msg_def ex_dp_def ex_access_table_def)
  have h4: "shortest_paths (awareness ex_app) 1 = None"
    by (simp add: ex_app_def ex_awareness_def)
  have a: "get_path (ex7_app ex7_table_two) 8 7 = Inl AttributeError"
    using get_path_no_entry [of "ex7_app ex7_table_two" 8 7] h1 by blast
  have b: "get_path (ex7_app ex7_table_two) 7 8 = Inl TypeError"
    using get_path_no_entry [of "ex7_app ex7_table_two" 7 8] h2 by blast
  have "get_path ex_app 1 4 = Inl AttributeError"
    using get_path_no_entry [of ex_app 1 4] h4 by blast
  with get_path_no_entry [of ex_app 1 4 ex_msg "''10.0.0.1''" "''10.0.0.4''" 2048 "[]"] h3
  have c: "shortest_forwarding ex_app ex_msg 2048 ''10.0.0.1'' ''10.0.0.4'' [] = (Inl AttributeError, [])"
    by simp
  from a b c show ?thesis by blast
qed

text \<open>
  C4 as stated fails: no path is computed in the example, and forwarding a packet from
  10.0.0.1 to 10.0.0.4 ends with an AttributeError that nothing catches or logs.
\<close>

theorem get_path_no_entry_counterexample:
  "shortest_paths (awareness ex_app) 1 = None
   \<and> get_path ex_app 1 4 = Inl AttributeError
   \<and> shortest_forwarding ex_app ex_msg 2048 ''10.0.0.1'' ''10.0.0.4'' [] = (Inl AttributeError, [])"
  by (simp add: get_path_def shortest_forwarding_def get_sw_def ex_app_def ex_awareness_def
        ex_msg_def ex_dp_def ex_access_table_def)



end
